theory Spec2Isabelle
  imports Main "HOL-Library.Word"
begin

unbundle bit_operations_syntax

section \<open>Data model of the screen layer (screen.h)\<close>

text \<open>
  The screen layer keeps all of its objects in static storage and reaches them through
  pointers. A \<open>Field *\<close> is modelled as an index into the list of all \<open>Field\<close>
  objects (\<open>field_mem\<close> of the state), so that \<open>&entries[i]\<close> is \<open>entries + i\<close>
  and two layouts holding the same pointer share one object. A pointer outside the list is
  an invalid access (\<open>BadAccess\<close>). A failed \<open>assert\<close> is \<open>AssertFailed\<close>.
\<close>

datatype fault = AssertFailed | BadAccess | OutOfFuel

datatype FieldVariant =
  FieldDrawText | FieldFill | FieldMesh | FieldScrollable | FieldEditable | FieldEnd

datatype EditableType = EditUInt | EditEnum

text \<open>
  \<open>struct Field\<close> of \<open>screen.h\<close>. The members of the anonymous union are laid side
  by side (no claim reads one member through another). \<open>first\<close> and \<open>selected\<close> are
  \<open>uint8_t\<close>; \<open>max_value\<close>, \<open>min_value\<close> and \<open>inc_step\<close> are \<open>uint32_t\<close>.
  \<open>etyp\<close> is \<open>editable.typ\<close>; \<open>options\<close> is the array behind
  \<open>editEnum.options\<close>, a \<open>NULL\<close> entry being \<open>None\<close>; \<open>entries\<close> is the
  address of the first entry of a scrollable (\<open>None\<close> for \<open>NULL\<close>); \<open>label\<close> is
  the scrollable's label; \<open>target\<close> is the address of the editable's cell among the raw
  bytes. \<open>msg\<close> is the C string held in \<open>drawText.msg\<close> (the characters before the
  terminating NUL). Members that are only handed to the drawing primitives (fonts, units,
  div_digits, hide_fraction, the editable's label) are left out.

  Modelled from the spec: the code also uses \<open>blink\<close>, \<open>is_selected\<close>,
  \<open>editable.read_only\<close> and an \<open>editable.size\<close> (\<open>size_e\<close>) that serves both
  editable types, which the \<open>screen.h\<close> at hand does not declare; they are taken as the
  spec's data model lists them (the flags of a Field; a read-only flag and a byte width of
  1, 2 or 4 for an editable).
\<close>

record Field =
  variant :: FieldVariant
  dirty :: bool
  blink :: bool
  is_selected :: bool
  msg :: string
  entries :: "nat option"
  label :: string
  first :: "8 word"
  selected :: "8 word"
  target :: nat
  etyp :: EditableType
  read_only :: bool
  size_e :: "8 word"
  max_value :: "32 word"
  min_value :: "32 word"
  inc_step :: "32 word"
  options :: "string option list"

definition MAX_FIELD_LEN :: nat where
  "MAX_FIELD_LEN = 16"

text \<open>\<open>UG_FONT\<close>: only the metrics the screen layer reads.\<close>

record UG_FONT =
  char_width :: int
  char_height :: int

text \<open>
  Modelled from the spec: the layout's modifier is not declared in the \<open>screen.h\<close> at
  hand; the code compares it with \<open>ModNoLabel\<close> ("a modifier, e.g. suppress label").
\<close>

datatype LayoutModifier = ModNone | ModNoLabel

text \<open>
  \<open>FieldLayout\<close> of \<open>screen.h\<close>. \<open>Coord\<close> is \<open>int16_t\<close>: the members
  \<open>lx\<close> (for \<open>x\<close>), \<open>ly\<close> (for \<open>y\<close>), \<open>width\<close> and \<open>height\<close> hold the
  value after conversion to 16 bits (see \<open>to_Coord\<close>). \<open>field\<close> is the
  \<open>Field *\<close>, \<open>None\<close> for the terminating layout. \<open>color\<close> and \<open>border\<close> only
  select what is drawn and are left out.

  Modelled from the spec: the code also uses \<open>font\<close>, \<open>modifier\<close> and
  \<open>old_editable\<close>, which the \<open>screen.h\<close> at hand does not declare; the spec lists
  them as an optional font override, a modifier and a cached previous numeric value.
\<close>

record FieldLayout =
  lx :: int
  ly :: int
  width :: int
  height :: int
  font :: "UG_FONT option"
  modifier :: LayoutModifier
  old_editable :: "32 word"
  field :: "nat option"

text \<open>
  The file-static variables of the screen layer, the objects they point into, and the raw
  bytes the editables' \<open>target\<close> pointers address (\<open>mem\<close>, little-endian as on the
  Cortex-M0 the display runs on). \<open>scrollableStack\<close> is the array of
  \<open>MAX_SCROLLABLE_DEPTH\<close> pointers, \<open>scrollableStackPtr\<close> the index of the next free
  slot.
\<close>

record ui_state =
  field_mem :: "Field list"
  layout_mem :: "FieldLayout list"
  mem :: "nat \<Rightarrow> 8 word"
  forceScrollableRelayout :: bool
  curActiveEditable :: "nat option"
  scrollableStack :: "nat \<Rightarrow> nat"
  scrollableStackPtr :: nat
  blinkChanged :: bool
  blinkOn :: bool
  oldForceLabels :: bool
  forceLabels :: bool

definition MAX_SCROLLABLE_DEPTH :: nat where
  "MAX_SCROLLABLE_DEPTH = 3"

definition MAX_SCROLLABLE_ROWS :: nat where
  "MAX_SCROLLABLE_ROWS = 4"

definition upd_field :: "nat \<Rightarrow> (Field \<Rightarrow> Field) \<Rightarrow> ui_state \<Rightarrow> ui_state" where
  "upd_field p g st = st\<lparr>field_mem := (field_mem st)[p := g (field_mem st ! p)]\<rparr>"

section \<open>Editable values (getEditableNumber, setEditableNumber, changeEditable)\<close>

definition load16 :: "(nat \<Rightarrow> 8 word) \<Rightarrow> nat \<Rightarrow> 16 word" where
  "load16 m a = word_cat (m (a + 1)) (m a)"

definition load32 :: "(nat \<Rightarrow> 8 word) \<Rightarrow> nat \<Rightarrow> 32 word" where
  "load32 m a = word_cat (load16 m (a + 2)) (load16 m a)"

definition store16 :: "(nat \<Rightarrow> 8 word) \<Rightarrow> nat \<Rightarrow> 16 word \<Rightarrow> (nat \<Rightarrow> 8 word)" where
  "store16 m a v = m(a := ucast v, a + 1 := ucast (drop_bit 8 v))"

definition store32 :: "(nat \<Rightarrow> 8 word) \<Rightarrow> nat \<Rightarrow> 32 word \<Rightarrow> (nat \<Rightarrow> 8 word)" where
  "store32 m a v = store16 (store16 m a (ucast v)) (a + 2) (ucast (drop_bit 16 v))"

text \<open>
  \<open>getEditableNumber\<close> returns \<open>int32_t\<close>, kept as its 32-bit pattern (\<open>sint\<close> reads
  it). The one-byte case reads through \<open>uint8_t *\<close> (zero extension), the two-byte case
  through \<open>int16_t *\<close> (sign extension).
\<close>

definition getEditableNumber :: "ui_state \<Rightarrow> nat \<Rightarrow> fault + 32 word" where
  "getEditableNumber st p =
     (if \<not> p < length (field_mem st) then Inl BadAccess
      else let f = field_mem st ! p in
        if size_e f = 1 then Inr (ucast (mem st (target f)))
        else if size_e f = 2 then Inr (scast (load16 (mem st) (target f)))
        else if size_e f = 4 then Inr (load32 (mem st) (target f))
        else Inl AssertFailed)"

definition setEditableNumber :: "ui_state \<Rightarrow> nat \<Rightarrow> 32 word \<Rightarrow> fault + ui_state" where
  "setEditableNumber st p v =
     (if \<not> p < length (field_mem st) then Inl BadAccess
      else let f = field_mem st ! p in
        if size_e f = 1 then Inr (st\<lparr>mem := (mem st)(target f := ucast v)\<rparr>)
        else if size_e f = 2 then Inr (st\<lparr>mem := store16 (mem st) (target f) (ucast v)\<rparr>)
        else if size_e f = 4 then Inr (st\<lparr>mem := store32 (mem st) (target f) v\<rparr>)
        else Inl AssertFailed)"

text \<open>
  \<open>countEnumOptions\<close>: \<open>while (*e++) n++\<close> over the option array. Running off the array
  without meeting \<open>NULL\<close> is an invalid access.
\<close>

fun countEnumOptions_loop :: "string option list \<Rightarrow> nat \<Rightarrow> fault + nat" where
  "countEnumOptions_loop [] n = Inl BadAccess"
| "countEnumOptions_loop (None # es) n = Inr n"
| "countEnumOptions_loop (Some s # es) n = countEnumOptions_loop es (n + 1)"

definition countEnumOptions :: "Field \<Rightarrow> fault + nat" where
  "countEnumOptions s = countEnumOptions_loop (options s) 0"

text \<open>
  \<open>changeEditable\<close>. \<open>v\<close> and \<open>step\<close> are \<open>int\<close> (32 bits, two's complement; the
  addition wraps). In the \<open>EditUInt\<close> case \<open>v\<close> is compared with the \<open>uint32_t\<close>
  members \<open>min_value\<close> and \<open>max_value\<close>: C converts \<open>v\<close> to unsigned, so the
  comparisons are the unsigned order \<open><\<close> of words. In the \<open>EditEnum\<close> case both
  sides are \<open>int\<close>: the signed order \<open><s\<close>.
\<close>

definition changeEditable :: "bool \<Rightarrow> ui_state \<Rightarrow> fault + ui_state" where
  "changeEditable increment st =
     (case curActiveEditable st of
        None \<Rightarrow> Inl AssertFailed
      | Some p \<Rightarrow>
         (case getEditableNumber st p of
            Inl e \<Rightarrow> Inl e
          | Inr v \<Rightarrow>
             (let f = field_mem st ! p in
              case etyp f of
                EditUInt \<Rightarrow>
                  (let step = (if inc_step f = 0 then 1 else inc_step f);
                       v1 = v + step * (if increment then 1 else - 1);
                       v2 = (if v1 < min_value f then max_value f
                             else if v1 > max_value f then min_value f
                             else v1)
                   in setEditableNumber st p v2)
              | EditEnum \<Rightarrow>
                  (case countEnumOptions f of
                     Inl e \<Rightarrow> Inl e
                   | Inr n \<Rightarrow>
                      (let numOpts = (word_of_nat n :: 32 word);
                           v1 = v + (if increment then 1 else - 1);
                           v2 = (if v1 <s 0 then numOpts - 1
                                 else if numOpts \<le>s v1 then 0
                                 else v1)
                       in setEditableNumber st p v2)))))"

text \<open>
  The value held in an editable's storage cell, read as an unsigned number of the cell's
  width (what the memory contains, as opposed to what \<open>getEditableNumber\<close> makes of it).
\<close>

definition stored_value :: "ui_state \<Rightarrow> nat \<Rightarrow> nat" where
  "stored_value st p =
     (let f = field_mem st ! p in
      if size_e f = 1 then unat (mem st (target f))
      else if size_e f = 2 then unat (load16 (mem st) (target f))
      else unat (load32 (mem st) (target f)))"

section \<open>fieldPrintf\<close>

text \<open>
  \<open>vsnprintf(buf, sizeof buf, fmt, ...)\<close> is the C library's; \<open>formatted\<close> stands for
  the text the format and its arguments expand to. What is left in a buffer of \<open>n\<close>
  bytes is at most \<open>n - 1\<close> of its characters, read as a C string.
\<close>

definition vsnprintf_buf :: "nat \<Rightarrow> string \<Rightarrow> string" where
  "vsnprintf_buf n formatted = takeWhile (\<lambda>c. c \<noteq> CHR 0x00) (take (n - 1) formatted)"

definition fieldPrintf :: "nat \<Rightarrow> string \<Rightarrow> ui_state \<Rightarrow> fault + ui_state" where
  "fieldPrintf p formatted st =
     (if \<not> p < length (field_mem st) then Inl BadAccess
      else let buf = vsnprintf_buf MAX_FIELD_LEN formatted in
        if buf \<noteq> msg (field_mem st ! p)
        then Inr (upd_field p (\<lambda>f. f\<lparr>msg := buf, dirty := True\<rparr>) st)
        else Inr st)"


section \<open>The scrollable stack\<close>

definition getActiveScrollable :: "ui_state \<Rightarrow> nat option" where
  "getActiveScrollable st =
     (if scrollableStackPtr st \<noteq> 0
      then Some (scrollableStack st (scrollableStackPtr st - 1))
      else None)"

definition enterScrollable :: "nat \<Rightarrow> ui_state \<Rightarrow> fault + ui_state" where
  "enterScrollable f st =
     (if \<not> scrollableStackPtr st < MAX_SCROLLABLE_DEPTH then Inl AssertFailed
      else
        let st1 = st\<lparr>scrollableStack := (scrollableStack st)(scrollableStackPtr st := f),
                      scrollableStackPtr := scrollableStackPtr st + 1\<rparr>
        in if \<not> f < length (field_mem st1) then Inl BadAccess
           else
             let st2 = upd_field f (\<lambda>x. x\<lparr>blink := True\<rparr>) st1;
                 root = scrollableStack st2 0
             in if \<not> root < length (field_mem st2) then Inl BadAccess
                else Inr ((upd_field root (\<lambda>x. x\<lparr>dirty := True\<rparr>) st2)
                            \<lparr>forceScrollableRelayout := True\<rparr>))"

definition exitScrollable :: "ui_state \<Rightarrow> fault + bool \<times> ui_state" where
  "exitScrollable st =
     (if \<not> scrollableStackPtr st > 0 then Inl AssertFailed
      else
        let st1 = st\<lparr>scrollableStackPtr := scrollableStackPtr st - 1\<rparr>
        in case getActiveScrollable st1 of
             Some f \<Rightarrow>
               if \<not> f < length (field_mem st1) then Inl BadAccess
               else Inr (True, (upd_field f (\<lambda>x. x\<lparr>dirty := True\<rparr>) st1)
                                 \<lparr>forceScrollableRelayout := True\<rparr>)
           | None \<Rightarrow> Inr (False, st1))"

definition forceScrollableRender :: "ui_state \<Rightarrow> fault + ui_state" where
  "forceScrollableRender st =
     (case getActiveScrollable st of
        None \<Rightarrow> Inl AssertFailed
      | Some active \<Rightarrow>
          let root = scrollableStack st 0
          in if \<not> root < length (field_mem st) then Inl BadAccess
             else Inr ((upd_field root (\<lambda>x. x\<lparr>dirty := True\<rparr>) st)
                         \<lparr>forceScrollableRelayout := True\<rparr>))"

section \<open>Button presses\<close>

text \<open>
  Modelled from the spec: \<open>buttons.h\<close> is not among the sources. \<open>buttons_events_t\<close>
  is a mask of event flags "distinguishing at least up, down, select/middle, power/on-off
  each as a click event"; a mask is the set of its flags and \<open>events & X\<close> is
  \<open>X \<in> events\<close>.
\<close>

datatype button_flag = UP_CLICK | DOWN_CLICK | M_CLICK | ONOFF_CLICK | OTHER_EVENT

type_synonym buttons_events_t = "button_flag set"

definition onPressEditable :: "buttons_events_t \<Rightarrow> ui_state \<Rightarrow> fault + bool \<times> ui_state" where
  "onPressEditable events st =
     (let s = curActiveEditable st;
          handled1 = (UP_CLICK \<in> events);
          handled2 = (if DOWN_CLICK \<in> events then True else handled1);
          st1 = (if ONOFF_CLICK \<in> events then st\<lparr>curActiveEditable := None\<rparr> else st);
          handled = (if ONOFF_CLICK \<in> events then True else handled2)
      in if handled then
           (case s of
              None \<Rightarrow> Inl BadAccess
            | Some p \<Rightarrow>
                if \<not> p < length (field_mem st1) then Inl BadAccess
                else
                  let st2 = upd_field p (\<lambda>x. x\<lparr>dirty := True\<rparr>) st1
                  in case getActiveScrollable st2 of
                       None \<Rightarrow> Inr (handled, st2)
                     | Some scrollable \<Rightarrow>
                         let root = scrollableStack st2 0
                         in if \<not> root < length (field_mem st2) then Inl BadAccess
                            else Inr (handled, upd_field root (\<lambda>x. x\<lparr>dirty := True\<rparr>) st2))
         else Inr (handled, st1))"

text \<open>
  \<open>countEntries\<close>: the walk \<open>e++\<close> over the Fields from \<open>entries\<close> on, up to the
  first \<open>FieldEnd\<close>. Leaving the Field storage without meeting one is an invalid access.
  The count is a C \<open>int\<close>; the storage of a 32-bit machine holds fewer than \<open>2^31\<close>
  Fields, so it cannot overflow.
\<close>

fun countEntries_loop :: "Field list \<Rightarrow> int \<Rightarrow> fault + int" where
  "countEntries_loop [] n = Inl BadAccess"
| "countEntries_loop (e # es) n =
     (if variant e \<noteq> FieldEnd then countEntries_loop es (n + 1) else Inr n)"

definition countEntries :: "ui_state \<Rightarrow> nat \<Rightarrow> fault + int" where
  "countEntries st s =
     (if \<not> s < length (field_mem st) then Inl BadAccess
      else case entries (field_mem st ! s) of
             None \<Rightarrow> Inr 0
           | Some e \<Rightarrow> countEntries_loop (drop e (field_mem st)) 0)"

text \<open>The four \<open>if (events & ...)\<close> blocks of \<open>onPressScrollable\<close>, for the active
  scrollable \<open>s\<close>.\<close>

definition onPressScrollable_up :: "nat \<Rightarrow> ui_state \<Rightarrow> fault + ui_state" where
  "onPressScrollable_up s st =
     (if \<not> s < length (field_mem st) then Inl BadAccess
      else
        let st1 = (if selected (field_mem st ! s) \<ge> 1
                   then upd_field s (\<lambda>x. x\<lparr>selected := selected x - 1\<rparr>) st else st);
            st2 = (if selected (field_mem st1 ! s) < first (field_mem st1 ! s)
                   then upd_field s (\<lambda>x. x\<lparr>first := selected x\<rparr>) st1 else st1)
        in forceScrollableRender st2)"

definition onPressScrollable_down :: "nat \<Rightarrow> ui_state \<Rightarrow> fault + ui_state" where
  "onPressScrollable_down s st =
     (case countEntries st s of
        Inl e \<Rightarrow> Inl e
      | Inr numEntries \<Rightarrow>
          let st1 = (if uint (selected (field_mem st ! s)) < numEntries - 1
                     then upd_field s (\<lambda>x. x\<lparr>selected := selected x + 1\<rparr>) st else st);
              numDataRows = int MAX_SCROLLABLE_ROWS - 1;
              lastVisibleRow = uint (first (field_mem st1 ! s)) + numDataRows - 1;
              st2 = (if uint (selected (field_mem st1 ! s)) > lastVisibleRow
                     then upd_field s
                            (\<lambda>x. x\<lparr>first := word_of_int (uint (selected x) - numDataRows + 1)\<rparr>) st1
                     else st1)
          in forceScrollableRender st2)"

definition onPressScrollable_m :: "nat \<Rightarrow> bool \<Rightarrow> ui_state \<Rightarrow> fault + bool \<times> ui_state" where
  "onPressScrollable_m s handled st =
     (if \<not> s < length (field_mem st) then Inl BadAccess
      else case entries (field_mem st ! s) of
        None \<Rightarrow> Inl BadAccess
      | Some base \<Rightarrow>
          let clicked = base + unat (selected (field_mem st ! s))
          in if \<not> clicked < length (field_mem st) then Inl BadAccess
             else case variant (field_mem st ! clicked) of
               FieldEditable \<Rightarrow>
                 if \<not> read_only (field_mem st ! clicked) then
                   (case forceScrollableRender
                           (upd_field clicked (\<lambda>x. x\<lparr>dirty := True\<rparr>)
                              (st\<lparr>curActiveEditable := Some clicked\<rparr>)) of
                      Inl e \<Rightarrow> Inl e
                    | Inr st' \<Rightarrow> Inr (True, st'))
                 else Inr (handled, st)
             | FieldScrollable \<Rightarrow>
                 (case enterScrollable clicked st of
                    Inl e \<Rightarrow> Inl e
                  | Inr st' \<Rightarrow> Inr (True, st'))
             | _ \<Rightarrow> Inr (handled, st))"

definition onPressScrollable :: "buttons_events_t \<Rightarrow> ui_state \<Rightarrow> fault + bool \<times> ui_state" where
  "onPressScrollable events st =
     (case getActiveScrollable st of
        None \<Rightarrow> Inr (False, st)
      | Some s \<Rightarrow>
         (case (if UP_CLICK \<in> events
                then (case onPressScrollable_up s st of
                        Inl e \<Rightarrow> Inl e | Inr st' \<Rightarrow> Inr (True, st'))
                else Inr (False, st)) of
            Inl e \<Rightarrow> Inl e
          | Inr (handled1, st1) \<Rightarrow>
         (case (if DOWN_CLICK \<in> events
                then (case onPressScrollable_down s st1 of
                        Inl e \<Rightarrow> Inl e | Inr st' \<Rightarrow> Inr (True, st'))
                else Inr (handled1, st1)) of
            Inl e \<Rightarrow> Inl e
          | Inr (handled2, st2) \<Rightarrow>
         (case (if M_CLICK \<in> events then onPressScrollable_m s handled2 st2
                else Inr (handled2, st2)) of
            Inl e \<Rightarrow> Inl e
          | Inr (handled3, st3) \<Rightarrow>
              if ONOFF_CLICK \<in> events then exitScrollable st3
              else Inr (handled3, st3)))))"

text \<open>
  \<open>Screen\<close>: the press handler (\<open>None\<close> for a \<open>NULL\<close> pointer) and the address of
  \<open>fields[0]\<close>. The handler is application code: it sees the events and may change the
  state of the screen layer. \<open>curScreen\<close> is passed to \<open>screenOnPress\<close> as an
  argument (\<open>None\<close> when no screen is shown).
\<close>

record Screen =
  onPress :: "(buttons_events_t \<Rightarrow> ui_state \<Rightarrow> bool \<times> ui_state) option"
  screen_fields :: nat

definition screenOnPress ::
  "Screen option \<Rightarrow> buttons_events_t \<Rightarrow> ui_state \<Rightarrow> fault + bool \<times> ui_state" where
  "screenOnPress curScreen events st =
     (case (if curActiveEditable st \<noteq> None then onPressEditable events st
            else Inr (False, st)) of
        Inl e \<Rightarrow> Inl e
      | Inr (handled1, st1) \<Rightarrow>
     (case (if \<not> handled1 then onPressScrollable events st1 else Inr (handled1, st1)) of
        Inl e \<Rightarrow> Inl e
      | Inr (handled2, st2) \<Rightarrow>
          (case curScreen of
             None \<Rightarrow> Inr (handled2, st2)
           | Some scr \<Rightarrow>
              (case onPress scr of
                 None \<Rightarrow> Inr (handled2, st2)
               | Some handler \<Rightarrow>
                   if \<not> handled2
                   then (let (h, st3) = handler events st2 in Inr (h, st3))
                   else Inr (handled2, st2)))))"


section \<open>Rendering\<close>

text \<open>
  What the renderer takes from outside the screen layer: the display size
  (\<open>SCREEN_WIDTH\<close>, \<open>SCREEN_HEIGHT\<close> of \<open>lcd.h\<close>), \<open>gui.char_h_space\<close>, the
  button states sampled by \<open>buttons_get_m_state\<close>, \<open>buttons_get_up_state\<close> and
  \<open>buttons_get_down_state\<close>, the font behind \<open>heading_font\<close> and
  \<open>scrollable_font\<close>, and the addresses of the function-static objects of
  \<open>renderActiveScrollable\<close>: \<open>rows\<close> (the first of \<open>MAX_SCROLLABLE_ROWS + 1\<close>
  layouts), \<open>heading\<close>, \<open>label_field\<close> (the static \<open>label\<close>) and \<open>blankRows\<close>
  (the first of \<open>MAX_SCROLLABLE_ROWS\<close> Fields). The calls of the drawing primitives
  (\<open>UG_FillFrame\<close>, \<open>UG_PutString\<close>, ...) change nothing the screen layer reads
  back and are not modelled; \<open>drawSelectionMarker\<close> and \<open>drawBorder\<close> only draw.
\<close>

record platform =
  screenWidth :: int
  screenHeight :: int
  char_h_space :: int
  m_state :: bool
  up_state :: bool
  down_state :: bool
  heading_font :: UG_FONT
  scrollable_font :: UG_FONT
  rows :: nat
  heading :: nat
  label_field :: nat
  blankRows :: nat

text \<open>Conversion of an \<open>int\<close> to \<open>Coord\<close> (\<open>int16_t\<close>).\<close>

definition to_Coord :: "int \<Rightarrow> int" where
  "to_Coord z = signed_take_bit 15 z"

definition upd_layout :: "nat \<Rightarrow> (FieldLayout \<Rightarrow> FieldLayout) \<Rightarrow> ui_state \<Rightarrow> ui_state" where
  "upd_layout lp g st = st\<lparr>layout_mem := (layout_mem st)[lp := g (layout_mem st ! lp)]\<rparr>"

definition needsRender :: "ui_state \<Rightarrow> nat \<Rightarrow> bool" where
  "needsRender st p =
     (let f = field_mem st ! p in
      if dirty f then True
      else if blink f \<and> blinkChanged st then True
      else if variant f = FieldEditable then True
      else False)"

text \<open>The size and position shorthands resolved by \<open>renderLayouts\<close> before a layout is
  drawn; \<open>maxy\<close> is the lowest point drawn so far.\<close>

definition autoLayout :: "platform \<Rightarrow> int \<Rightarrow> FieldLayout \<Rightarrow> fault + FieldLayout" where
  "autoLayout pf maxy l0 =
     (let l1 = (if width l0 = 0 then l0\<lparr>width := to_Coord (screenWidth pf - lx l0)\<rparr> else l0);
          l2 = (if height l1 = 0 then l1\<lparr>height := to_Coord (screenHeight pf - ly l1)\<rparr> else l1)
      in case (if height l2 = - 1
               then (case font l2 of
                       None \<Rightarrow> Inl AssertFailed
                     | Some fnt \<Rightarrow> Inr (l2\<lparr>height := to_Coord (char_height fnt)\<rparr>))
               else Inr l2) of
           Inl e \<Rightarrow> Inl e
         | Inr l3 \<Rightarrow>
          (case (if width l3 < 0
                 then (case font l3 of
                         None \<Rightarrow> Inl AssertFailed
                       | Some fnt \<Rightarrow>
                           Inr (l3\<lparr>width := to_Coord (- width l3 * (char_width fnt + char_h_space pf))\<rparr>))
                 else Inr l3) of
             Inl e \<Rightarrow> Inl e
           | Inr l4 \<Rightarrow>
               Inr (if ly l4 < 0 then l4\<lparr>ly := to_Coord (maxy + - ly l4 - 1)\<rparr> else l4)))"

text \<open>
  The body of the drawing loop of \<open>renderLayouts\<close> up to the call of the renderer, for
  the layout at \<open>lp\<close>: \<open>None\<close> when \<open>layout->field\<close> is \<open>NULL\<close> (the loop ends),
  otherwise whether the layout is to be rendered, with the loop's locals
  \<open>(didDraw, maxy, didChangeForceLabels)\<close> and the state.
\<close>

definition beforeRender ::
  "platform \<Rightarrow> bool \<Rightarrow> nat \<Rightarrow> bool \<times> int \<times> bool \<Rightarrow> ui_state
     \<Rightarrow> fault + (bool \<times> (bool \<times> int \<times> bool) \<times> ui_state) option" where
  "beforeRender pf forceRender lp acc st =
     (case acc of (didDraw, maxy, didChangeForceLabels) \<Rightarrow>
      if \<not> lp < length (layout_mem st) then Inl BadAccess
      else case field (layout_mem st ! lp) of
        None \<Rightarrow> Inr None
      | Some p \<Rightarrow>
          if \<not> p < length (field_mem st) then Inl BadAccess
          else
            let st1 = (if forceRender then upd_field p (\<lambda>x. x\<lparr>dirty := True\<rparr>) st else st);
                isEd = (variant (field_mem st1 ! p) = FieldEditable);
                st2 = (if isEd
                       then st1\<lparr>forceLabels :=
                                   (m_state pf \<and> modifier (layout_mem st1 ! lp) = ModNoLabel)\<rparr>
                       else st1);
                acc1 = (didDraw, maxy, if isEd then True else didChangeForceLabels)
            in if needsRender st2 p then
                 (case autoLayout pf maxy (layout_mem st2 ! lp) of
                    Inl e \<Rightarrow> Inl e
                  | Inr l \<Rightarrow> Inr (Some (True, acc1, upd_layout lp (\<lambda>_. l) st2)))
               else Inr (Some (False, acc1, st2)))"

text \<open>The rest of the loop body, after the renderer returned \<open>drew\<close>.\<close>

definition afterRender :: "nat \<Rightarrow> bool \<times> int \<times> bool \<Rightarrow> bool \<Rightarrow> ui_state \<Rightarrow> bool \<times> int \<times> bool" where
  "afterRender lp acc drew st =
     (case acc of (didDraw, maxy, didChangeForceLabels) \<Rightarrow>
      let l = layout_mem st ! lp in
      (didDraw \<or> drew,
       if ly l + height l > maxy then to_Coord (ly l + height l) else maxy,
       didChangeForceLabels))"

text \<open>The second pass of \<open>renderLayouts\<close>, over the layouts from \<open>layouts\<close> on as they
  are in memory when the first pass has ended.\<close>

fun clearDirty :: "FieldLayout list \<Rightarrow> ui_state \<Rightarrow> fault + ui_state" where
  "clearDirty [] st = Inl BadAccess"
| "clearDirty (l # ls) st =
     (case field l of
        None \<Rightarrow> Inr st
      | Some p \<Rightarrow>
          if \<not> p < length (field_mem st) then Inl BadAccess
          else clearDirty ls (upd_field p (\<lambda>x. x\<lparr>dirty := False\<rparr>) st))"

definition renderDrawText :: "FieldLayout \<Rightarrow> fault + bool" where
  "renderDrawText l = (case font l of None \<Rightarrow> Inl AssertFailed | Some fnt \<Rightarrow> Inr True)"

definition renderFill :: "FieldLayout \<Rightarrow> fault + bool" where
  "renderFill l =
     (if \<not> width l \<ge> 1 then Inl AssertFailed
      else if \<not> height l \<ge> 1 then Inl AssertFailed
      else Inr True)"

definition renderMesh :: "FieldLayout \<Rightarrow> fault + bool" where
  "renderMesh l =
     (if \<not> width l \<ge> 1 then Inl AssertFailed
      else if \<not> height l \<ge> 1 then Inl AssertFailed
      else Inr True)"

definition renderEnd :: "FieldLayout \<Rightarrow> fault + bool" where
  "renderEnd l = Inl AssertFailed"

text \<open>
  \<open>renderEditable\<close>, for the layout at \<open>lp\<close> showing the Field at \<open>p\<close>. Its drawing
  reads \<open>options[num]\<close> of an enum, and the string's length when the value is shown.
\<close>

definition renderEditable :: "platform \<Rightarrow> nat \<Rightarrow> nat \<Rightarrow> ui_state \<Rightarrow> fault + bool \<times> ui_state" where
  "renderEditable pf lp p st =
     (let f = field_mem st ! p;
          isActive = (curActiveEditable st = Some p);
          dirty0 = dirty f
      in case (if isActive \<and> blinkChanged st \<and> \<not> read_only f
               then (case (if up_state pf then changeEditable True st else Inr st) of
                       Inl e \<Rightarrow> Inl e
                     | Inr sta \<Rightarrow> if down_state pf then changeEditable False sta else Inr sta)
               else Inr st) of
           Inl e \<Rightarrow> Inl e
         | Inr st1 \<Rightarrow>
          (case getEditableNumber st1 p of
             Inl e \<Rightarrow> Inl e
           | Inr num \<Rightarrow>
               let changed = (num \<noteq> old_editable (layout_mem st1 ! lp));
                   st2 = (if changed then upd_layout lp (\<lambda>l. l\<lparr>old_editable := num\<rparr>) st1 else st1);
                   dirty1 = (if changed then True else dirty0);
                   dirty2 = (if forceLabels st2 \<noteq> oldForceLabels st2 then True else dirty1)
               in if \<not> dirty2 then Inr (False, st2)
                  else case etyp f of
                    EditUInt \<Rightarrow> Inr (True, st2)
                  | EditEnum \<Rightarrow>
                      if \<not> unat num < length (options f) then Inl BadAccess
                      else if \<not> forceLabels st2 \<and> options f ! unat num = None then Inl BadAccess
                      else Inr (True, st2)))"

text \<open>
  One turn of the loop \<open>for (i = 0; i < MAX_SCROLLABLE_ROWS; i++)\<close> of
  \<open>renderActiveScrollable\<close>: row \<open>i\<close> of the expanded scrollable \<open>fld\<close>, drawn in the
  place of the layout at \<open>lp\<close>. \<open>hasMoreRows\<close> is the loop's local.
\<close>

definition relayoutRow ::
  "platform \<Rightarrow> nat \<Rightarrow> nat \<Rightarrow> nat \<Rightarrow> bool \<Rightarrow> ui_state \<Rightarrow> fault + bool \<times> ui_state" where
  "relayoutRow pf lp fld i hasMoreRows st =
     (let r = rows pf + i; rowHeight = 32 in
      if \<not> lp < length (layout_mem st) \<or> \<not> rows pf + MAX_SCROLLABLE_ROWS < length (layout_mem st)
         \<or> \<not> fld < length (field_mem st)
      then Inl BadAccess
      else
        let layout = layout_mem st ! lp;
            st1 = upd_layout r (\<lambda>x. x\<lparr>lx := lx layout,
                                        ly := to_Coord (ly layout + rowHeight * int i),
                                        width := width layout,
                                        height := rowHeight - 1\<rparr>) st
        in case
          (if i = 0 then
             (case fieldPrintf (heading pf) (label (field_mem st1 ! fld)) st1 of
                Inl e \<Rightarrow> Inl e
              | Inr st2 \<Rightarrow>
                  Inr (hasMoreRows,
                       upd_layout r (\<lambda>x. x\<lparr>field := Some (heading pf),
                                              font := Some (heading_font pf)\<rparr>) st2))
           else
             (let entryNum = uint (first (field_mem st1 ! fld)) + int i - 1 in
              case entries (field_mem st1 ! fld) of
                None \<Rightarrow> Inl BadAccess
              | Some base \<Rightarrow>
                  let entry = base + nat entryNum in
                  if \<not> entry < length (field_mem st1) then Inl BadAccess
                  else
                    let st2 = upd_field entry (\<lambda>x. x\<lparr>dirty := True\<rparr>) st1;
                        hm = (if variant (field_mem st2 ! entry) = FieldEnd then False
                                else hasMoreRows)
                    in if hm then
                         (let st3 = upd_layout r (\<lambda>x. x\<lparr>field := Some entry\<rparr>) st2;
                              st4 = upd_field entry
                                      (\<lambda>x. x\<lparr>is_selected :=
                                                 (entryNum = uint (selected (field_mem st3 ! fld)))\<rparr>) st3
                          in Inr (hm, upd_field entry (\<lambda>x. x\<lparr>dirty := True\<rparr>) st4))
                       else
                         (let blank = blankRows pf + i in
                          if \<not> blank < length (field_mem st2) then Inl BadAccess
                          else
                            let st3 = upd_layout r (\<lambda>x. x\<lparr>field := Some blank\<rparr>) st2;
                                st4 = upd_field blank (\<lambda>x. x\<lparr>variant := FieldFill\<rparr>) st3
                            in Inr (hm, upd_field blank (\<lambda>x. x\<lparr>dirty := True\<rparr>) st4)))) of
            Inl e \<Rightarrow> Inl e
          | Inr (hm, st5) \<Rightarrow>
              Inr (hm, upd_layout (rows pf + MAX_SCROLLABLE_ROWS) (\<lambda>x. x\<lparr>field := None\<rparr>) st5))"

text \<open>The loop itself: \<open>k\<close> rows are still to be laid out.\<close>

fun relayoutRows :: "platform \<Rightarrow> nat \<Rightarrow> nat \<Rightarrow> nat \<Rightarrow> bool \<Rightarrow> ui_state \<Rightarrow> fault + ui_state" where
  "relayoutRows pf lp fld 0 hasMoreRows st = Inr st"
| "relayoutRows pf lp fld (Suc k) hasMoreRows st =
     (case relayoutRow pf lp fld (MAX_SCROLLABLE_ROWS - Suc k) hasMoreRows st of
        Inl e \<Rightarrow> Inl e
      | Inr (hm, st') \<Rightarrow> relayoutRows pf lp fld k hm st')"

text \<open>
  \<open>renderActiveScrollable\<close> up to its last statement, the call
  \<open>renderLayouts(rows, false)\<close>: the rows of the expanded scrollable, or the single
  label row of a collapsed one, are written into the static \<open>rows\<close>.
\<close>

definition renderActiveScrollable_rows ::
  "platform \<Rightarrow> nat \<Rightarrow> nat \<Rightarrow> ui_state \<Rightarrow> fault + ui_state" where
  "renderActiveScrollable_rows pf lp fld st =
     (let scrollable = getActiveScrollable st;
          weAreExpanded = (scrollable = Some fld)
      in if weAreExpanded then
           (if forceScrollableRelayout st \<or> blinkChanged st
            then relayoutRows pf lp fld MAX_SCROLLABLE_ROWS True
                   (st\<lparr>forceScrollableRelayout := False\<rparr>)
            else Inr st)
         else if \<not> lp < length (layout_mem st) \<or> \<not> rows pf + 1 < length (layout_mem st)
                 \<or> \<not> fld < length (field_mem st) \<or> \<not> label_field pf < length (field_mem st)
         then Inl BadAccess
         else
           let layout = layout_mem st ! lp;
               st1 = upd_layout (rows pf) (\<lambda>x. x\<lparr>lx := lx layout, ly := ly layout,
                                                  width := width layout,
                                                  height := height layout\<rparr>) st
           in case fieldPrintf (label_field pf) (label (field_mem st1 ! fld)) st1 of
                Inl e \<Rightarrow> Inl e
              | Inr st2 \<Rightarrow>
                 (let st3 = upd_layout (rows pf)
                              (\<lambda>x. x\<lparr>field := Some (label_field pf),
                                      font := Some (scrollable_font pf)\<rparr>) st2
                  in case (case scrollable of
                             None \<Rightarrow> Inr False
                           | Some sc \<Rightarrow>
                               if \<not> sc < length (field_mem st3) then Inl BadAccess
                               else Inr (case entries (field_mem st3 ! sc) of
                                           None \<Rightarrow> False
                                         | Some base \<Rightarrow>
                                             fld = base + unat (selected (field_mem st3 ! sc)))) of
                       Inl e \<Rightarrow> Inl e
                     | Inr sel \<Rightarrow>
                         Inr (upd_layout (rows pf + 1) (\<lambda>x. x\<lparr>field := None\<rparr>)
                                (upd_field (label_field pf) (\<lambda>x. x\<lparr>is_selected := sel\<rparr>) st3))))"

text \<open>
  \<open>renderLayouts\<close>, its drawing loop, the dispatch through \<open>renderers[]\<close>,
  \<open>renderScrollable\<close> and \<open>renderActiveScrollable\<close> call one another. A menu whose
  entries lead back to an open scrollable makes the C code recurse without end, so the
  recursion is bounded by fuel: \<open>renderLoop n\<close> is the drawing loop that may run \<open>n\<close>
  more turns, nested calls included, and \<open>OutOfFuel\<close> stands for a run that has not
  returned within them. The four functions are first written over the loop they call
  (\<open>loop\<close>), then tied to \<open>renderLoop\<close>.
\<close>

type_synonym render_loop =
  "bool \<Rightarrow> nat \<Rightarrow> bool \<times> int \<times> bool \<Rightarrow> ui_state \<Rightarrow> fault + (bool \<times> int \<times> bool) \<times> ui_state"

definition renderLayouts_over ::
  "render_loop \<Rightarrow> nat \<Rightarrow> bool \<Rightarrow> ui_state \<Rightarrow> fault + bool \<times> ui_state" where
  "renderLayouts_over loop layouts forceRender st =
     (case loop forceRender layouts (False, 0, False) st of
        Inl e \<Rightarrow> Inl e
      | Inr (acc, st1) \<Rightarrow>
         (case clearDirty (drop layouts (layout_mem st1)) st1 of
            Inl e \<Rightarrow> Inl e
          | Inr st2 \<Rightarrow>
              Inr (fst acc,
                   if snd (snd acc) then st2\<lparr>oldForceLabels := forceLabels st2\<rparr> else st2)))"

definition renderActiveScrollable_over ::
  "render_loop \<Rightarrow> platform \<Rightarrow> nat \<Rightarrow> nat \<Rightarrow> ui_state \<Rightarrow> fault + bool \<times> ui_state" where
  "renderActiveScrollable_over loop pf lp fld st =
     (case renderActiveScrollable_rows pf lp fld st of
        Inl e \<Rightarrow> Inl e
      | Inr st1 \<Rightarrow> renderLayouts_over loop (rows pf) False st1)"

definition renderScrollable_over ::
  "render_loop \<Rightarrow> platform \<Rightarrow> nat \<Rightarrow> nat \<Rightarrow> ui_state \<Rightarrow> fault + bool \<times> ui_state" where
  "renderScrollable_over loop pf lp p st =
     (case (if getActiveScrollable st = None then enterScrollable p st else Inr st) of
        Inl e \<Rightarrow> Inl e
      | Inr st1 \<Rightarrow>
          if scrollableStack st1 0 = p then
            (case getActiveScrollable st1 of
               None \<Rightarrow> Inl BadAccess
             | Some fld \<Rightarrow> renderActiveScrollable_over loop pf lp fld st1)
          else renderActiveScrollable_over loop pf lp p st1)"

definition renderers_over ::
  "render_loop \<Rightarrow> platform \<Rightarrow> FieldVariant \<Rightarrow> nat \<Rightarrow> nat \<Rightarrow> ui_state \<Rightarrow> fault + bool \<times> ui_state" where
  "renderers_over loop pf v lp p st =
     (case v of
        FieldDrawText \<Rightarrow>
          (case renderDrawText (layout_mem st ! lp) of Inl e \<Rightarrow> Inl e | Inr b \<Rightarrow> Inr (b, st))
      | FieldFill \<Rightarrow>
          (case renderFill (layout_mem st ! lp) of Inl e \<Rightarrow> Inl e | Inr b \<Rightarrow> Inr (b, st))
      | FieldMesh \<Rightarrow>
          (case renderMesh (layout_mem st ! lp) of Inl e \<Rightarrow> Inl e | Inr b \<Rightarrow> Inr (b, st))
      | FieldScrollable \<Rightarrow> renderScrollable_over loop pf lp p st
      | FieldEditable \<Rightarrow> renderEditable pf lp p st
      | FieldEnd \<Rightarrow>
          (case renderEnd (layout_mem st ! lp) of Inl e \<Rightarrow> Inl e | Inr b \<Rightarrow> Inr (b, st)))"

text \<open>One turn of the drawing loop for the layout at \<open>lp\<close>; \<open>loop\<close> runs the turns
  that follow and the nested calls.\<close>

definition renderLoop_turn ::
  "render_loop \<Rightarrow> platform \<Rightarrow> bool \<Rightarrow> nat \<Rightarrow> bool \<times> int \<times> bool \<Rightarrow> ui_state
     \<Rightarrow> fault + (bool \<times> int \<times> bool) \<times> ui_state" where
  "renderLoop_turn loop pf forceRender lp acc st =
     (case beforeRender pf forceRender lp acc st of
        Inl e \<Rightarrow> Inl e
      | Inr None \<Rightarrow> Inr (acc, st)
      | Inr (Some (needs, acc1, st1)) \<Rightarrow>
          if needs then
            (case field (layout_mem st1 ! lp) of
               None \<Rightarrow> Inl BadAccess
             | Some p \<Rightarrow>
                (case renderers_over loop pf (variant (field_mem st1 ! p)) lp p st1 of
                   Inl e \<Rightarrow> Inl e
                 | Inr (drew, st2) \<Rightarrow>
                     loop forceRender (lp + 1) (afterRender lp acc1 drew st2) st2))
          else loop forceRender (lp + 1) acc1 st1)"

primrec renderLoop :: "nat \<Rightarrow> platform \<Rightarrow> render_loop" where
  "renderLoop 0 pf = (\<lambda>forceRender lp acc st. Inl OutOfFuel)"
| "renderLoop (Suc n) pf = renderLoop_turn (renderLoop n pf) pf"

definition renderLayouts ::
  "platform \<Rightarrow> nat \<Rightarrow> nat \<Rightarrow> bool \<Rightarrow> ui_state \<Rightarrow> fault + bool \<times> ui_state" where
  "renderLayouts pf n layouts forceRender st =
     renderLayouts_over (renderLoop n pf) layouts forceRender st"

definition renderers ::
  "platform \<Rightarrow> nat \<Rightarrow> FieldVariant \<Rightarrow> nat \<Rightarrow> nat \<Rightarrow> ui_state \<Rightarrow> fault + bool \<times> ui_state" where
  "renderers pf n v lp p st = renderers_over (renderLoop n pf) pf v lp p st"

definition renderScrollable ::
  "platform \<Rightarrow> nat \<Rightarrow> nat \<Rightarrow> nat \<Rightarrow> ui_state \<Rightarrow> fault + bool \<times> ui_state" where
  "renderScrollable pf n lp p st = renderScrollable_over (renderLoop n pf) pf lp p st"

definition renderActiveScrollable ::
  "platform \<Rightarrow> nat \<Rightarrow> nat \<Rightarrow> nat \<Rightarrow> ui_state \<Rightarrow> fault + bool \<times> ui_state" where
  "renderActiveScrollable pf n lp fld st =
     renderActiveScrollable_over (renderLoop n pf) pf lp fld st"

section \<open>Example objects\<close>

text \<open>Zero-initialised static storage: a Field, a layout and the state of the screen layer
  before anything is shown. The examples below are built from them.\<close>

definition zero_Field :: Field where
  "zero_Field =
     \<lparr>variant = FieldDrawText, dirty = False, blink = False, is_selected = False, msg = [],
      entries = None, label = [], first = 0, selected = 0, target = 0, etyp = EditUInt,
      read_only = False, size_e = 0, max_value = 0, min_value = 0, inc_step = 0,
      options = []\<rparr>"

definition zero_Layout :: FieldLayout where
  "zero_Layout =
     \<lparr>lx = 0, ly = 0, width = 0, height = 0, font = None, modifier = ModNone,
      old_editable = 0, field = None\<rparr>"

definition zero_state :: ui_state where
  "zero_state =
     \<lparr>field_mem = [], layout_mem = [], mem = (\<lambda>a. 0), forceScrollableRelayout = False,
      curActiveEditable = None, scrollableStack = (\<lambda>i. 0), scrollableStackPtr = 0,
      blinkChanged = False, blinkOn = False, oldForceLabels = False, forceLabels = False\<rparr>"

text \<open>An editable number of \<open>k\<close> bytes at address 0, bound to the cell at byte 0, being
  edited.\<close>

definition uint_editable :: "8 word \<Rightarrow> 32 word \<Rightarrow> 32 word \<Rightarrow> 32 word \<Rightarrow> ui_state" where
  "uint_editable k lo hi step =
     zero_state\<lparr>field_mem := [zero_Field\<lparr>variant := FieldEditable, etyp := EditUInt,
                                          size_e := k, min_value := lo, max_value := hi,
                                          inc_step := step\<rparr>],
                curActiveEditable := Some 0\<rparr>"

text \<open>A text Field at address 0 showing \<open>12 km/h\<close>.\<close>

definition text_example :: ui_state where
  "text_example = zero_state\<lparr>field_mem := [zero_Field\<lparr>msg := ''12 km/h''\<rparr>]\<rparr>"

text \<open>
  A two-level menu. Address 0 is the root scrollable with the entries 1 (a sub-menu), 2 (an
  editable byte) and 3 (\<open>FieldEnd\<close>); the sub-menu has the entries 4 (an editable) and 5
  (\<open>FieldEnd\<close>). \<open>menu_example d\<close> has the first \<open>d\<close> of root and sub-menu on the
  scrollable stack.
\<close>

definition menu_fields :: "Field list" where
  "menu_fields =
     [zero_Field\<lparr>variant := FieldScrollable, label := ''Menu'', entries := Some 1\<rparr>,
      zero_Field\<lparr>variant := FieldScrollable, label := ''Sub'', entries := Some 4\<rparr>,
      zero_Field\<lparr>variant := FieldEditable, size_e := 1, max_value := 9\<rparr>,
      zero_Field\<lparr>variant := FieldEnd\<rparr>,
      zero_Field\<lparr>variant := FieldEditable, size_e := 1, max_value := 9, target := 1\<rparr>,
      zero_Field\<lparr>variant := FieldEnd\<rparr>]"

definition menu_example :: "nat \<Rightarrow> ui_state" where
  "menu_example d =
     zero_state\<lparr>field_mem := menu_fields,
                scrollableStack := (\<lambda>i. if i = 1 then 1 else 0),
                scrollableStackPtr := d\<rparr>"

text \<open>Following the spec's words (4.5): the handlers are tried in order, and the first one
  that claims the event ends the dispatch; the event is unhandled when none claims it.\<close>

fun first_claim ::
  "(ui_state \<Rightarrow> fault + bool \<times> ui_state) list \<Rightarrow> ui_state \<Rightarrow> fault + bool \<times> ui_state" where
  "first_claim [] st = Inr (False, st)"
| "first_claim (h # hs) st =
     (case h st of
        Inl e \<Rightarrow> Inl e
      | Inr (claimed, st') \<Rightarrow> if claimed then Inr (True, st') else first_claim hs st')"

text \<open>Observations used to state the examples: the scroll window \<open>(first, selected)\<close> of
  the scrollable at \<open>s\<close>, and the window left by a sequence of presses handled by
  \<open>onPressScrollable\<close> (\<open>None\<close> when one of them faults).\<close>

definition scroll_window :: "ui_state \<Rightarrow> nat \<Rightarrow> int \<times> int" where
  "scroll_window st s = (uint (first (field_mem st ! s)), uint (selected (field_mem st ! s)))"

fun presses :: "buttons_events_t list \<Rightarrow> ui_state \<Rightarrow> fault + ui_state" where
  "presses [] st = Inr st"
| "presses (ev # evs) st =
     (case onPressScrollable ev st of Inl e \<Rightarrow> Inl e | Inr (h, st') \<Rightarrow> presses evs st')"

definition window_after :: "buttons_events_t list \<Rightarrow> ui_state \<Rightarrow> nat \<Rightarrow> (int \<times> int) option" where
  "window_after evs st s =
     (case presses evs st of Inl e \<Rightarrow> None | Inr st' \<Rightarrow> Some (scroll_window st' s))"

text \<open>A scrollable at address \<open>k + 1\<close> over \<open>k\<close> editable entries (addresses 0 to
  \<open>k - 1\<close>, then \<open>FieldEnd\<close>), open, with the given window.\<close>

definition flat_menu :: "nat \<Rightarrow> 8 word \<Rightarrow> 8 word \<Rightarrow> ui_state" where
  "flat_menu k fst_row sel =
     zero_state\<lparr>field_mem :=
                  replicate k (zero_Field\<lparr>variant := FieldEditable, size_e := 1\<rparr>)
                  @ [zero_Field\<lparr>variant := FieldEnd\<rparr>,
                     zero_Field\<lparr>variant := FieldScrollable, entries := Some 0,
                                 first := fst_row, selected := sel\<rparr>],
                scrollableStack := (\<lambda>i. k + 1),
                scrollableStackPtr := 1\<rparr>"

text \<open>An enum editable of \<open>k\<close> options over a cell of \<open>sz\<close> bytes whose first byte
  holds \<open>cell\<close>, being edited; and the content of the cell of the editable at \<open>p\<close>
  after one \<open>changeEditable\<close> (\<open>None\<close> when it faults).\<close>

definition enum_editable :: "nat \<Rightarrow> 8 word \<Rightarrow> 8 word \<Rightarrow> ui_state" where
  "enum_editable k sz cell =
     zero_state\<lparr>field_mem := [zero_Field\<lparr>variant := FieldEditable, etyp := EditEnum,
                                          size_e := sz,
                                          options := replicate k (Some ''option'') @ [None]\<rparr>],
                mem := (\<lambda>a. if a = 0 then cell else 0),
                curActiveEditable := Some 0\<rparr>"

definition stored_after :: "bool \<Rightarrow> ui_state \<Rightarrow> nat \<Rightarrow> nat option" where
  "stored_after increment st p =
     (case changeEditable increment st of
        Inl e \<Rightarrow> None
      | Inr st' \<Rightarrow> Some (stored_value st' p))"

text \<open>\<open>uint_editable\<close> with the first byte of its cell holding \<open>cell\<close>.\<close>

definition uint_editable_at :: "8 word \<Rightarrow> 32 word \<Rightarrow> 32 word \<Rightarrow> 32 word \<Rightarrow> 8 word \<Rightarrow> ui_state" where
  "uint_editable_at k lo hi step cell =
     (uint_editable k lo hi step)\<lparr>mem := (\<lambda>a. if a = 0 then cell else 0)\<rparr>"

text \<open>
  The menu of \<open>menu_fields\<close> on a 64 by 128 display. The Field storage continues with the
  static \<open>heading\<close> (address 6), \<open>label\<close> (7) and \<open>blankRows\<close> (8 to 11); the
  layout storage holds the screen (the root scrollable at layout 0, the terminating layout
  1) and the static \<open>rows\<close> (layouts 2 to 6). In \<open>menu_screen\<close> the screen has just
  been shown; in \<open>menu_open\<close> the root scrollable is open and its rows are to be laid
  out.
\<close>

definition menu_platform :: platform where
  "menu_platform =
     \<lparr>screenWidth = 64, screenHeight = 128, char_h_space = 0, m_state = False,
      up_state = False, down_state = False,
      heading_font = \<lparr>char_width = 5, char_height = 12\<rparr>,
      scrollable_font = \<lparr>char_width = 5, char_height = 12\<rparr>,
      rows = 2, heading = 6, label_field = 7, blankRows = 8\<rparr>"

definition menu_screen :: ui_state where
  "menu_screen =
     zero_state\<lparr>field_mem := menu_fields @ replicate 6 zero_Field,
                layout_mem := zero_Layout\<lparr>field := Some 0\<rparr> # replicate 6 zero_Layout\<rparr>"

definition menu_open :: ui_state where
  "menu_open = menu_screen\<lparr>scrollableStackPtr := 1, forceScrollableRelayout := True\<rparr>"

text \<open>Observations: the Fields the \<open>k\<close> layouts from \<open>lp\<close> on point to, and the
  addresses of the Fields whose dirty flag is set.\<close>

definition layout_fields :: "ui_state \<Rightarrow> nat \<Rightarrow> nat \<Rightarrow> nat option list" where
  "layout_fields st lp k = map field (take k (drop lp (layout_mem st)))"

definition dirty_fields :: "ui_state \<Rightarrow> nat list" where
  "dirty_fields st = filter (\<lambda>p. dirty (field_mem st ! p)) [0..<length (field_mem st)]"

text \<open>The rows \<open>renderActiveScrollable\<close> lays out for the open root scrollable, and what
  its call \<open>renderLayouts(rows, false)\<close> returns: whether it drew, and the Fields left
  dirty.\<close>

definition menu_rows :: "nat option list option" where
  "menu_rows =
     (case renderActiveScrollable_rows menu_platform 0 0 menu_open of
        Inl e \<Rightarrow> None
      | Inr st1 \<Rightarrow> Some (layout_fields st1 (rows menu_platform) 5))"

definition menu_rows_rendered :: "(bool \<times> nat list) option" where
  "menu_rows_rendered =
     (case renderActiveScrollable_rows menu_platform 0 0 menu_open of
        Inl e \<Rightarrow> None
      | Inr st1 \<Rightarrow>
         (case renderLayouts menu_platform 20 (rows menu_platform) False st1 of
            Inl e \<Rightarrow> None
          | Inr (drew, st2) \<Rightarrow> Some (drew, dirty_fields st2)))"

text \<open>The same for the whole pass over the screen, \<open>renderLayouts(curScreen->fields,
  true)\<close>.\<close>

definition menu_screen_rendered :: "(bool \<times> nat list) option" where
  "menu_screen_rendered =
     (case renderLayouts menu_platform 20 0 True menu_screen of
        Inl e \<Rightarrow> None
      | Inr (drew, st2) \<Rightarrow> Some (drew, dirty_fields st2))"

section \<open>Machine integers\<close>

lemma shift_mod:
  fixes u m :: int
  assumes "0 \<le> u" "u < 2 * m"
  shows "(u + m) mod (2 * m) - m = (if u < m then u else u - 2 * m)"
proof (cases "u < m")
  case True
  with assms have "(u + m) mod (2 * m) = u + m" by simp
  with True show ?thesis by simp
next
  case False
  have e: "u + m - 2 * m = u - m" by simp
  have "(u + m) mod (2 * m) = (u + m - 2 * m) mod (2 * m)"
    by (rule minus_mod_self2 [symmetric])
  also have "\<dots> = (u - m) mod (2 * m)" by (simp only: e)
  also have "\<dots> = u - m" using False assms by simp
  finally show ?thesis using False by simp
qed

lemma unat_less_int: "unat w < n \<longleftrightarrow> uint w < int n"
  by (simp only: uint_nat of_nat_less_iff)

lemma sint16:
  "sint (w :: 16 word) = (if unat w < 32768 then int (unat w) else int (unat w) - 65536)"
proof -
  have b: "0 \<le> uint w" "uint w < 2 * 32768" using uint_lt2p [of w] by simp_all
  have "sint w = signed_take_bit 15 (uint w)" by (simp add: sint_uint)
  also have "\<dots> = (uint w + 32768) mod (2 * 32768) - 32768"
    by (simp add: signed_take_bit_eq_take_bit_shift take_bit_eq_mod)
  also have "\<dots> = (if uint w < 32768 then uint w else uint w - 65536)"
    using shift_mod [OF b] by simp
  finally show ?thesis by (simp add: unat_less_int)
qed

lemma sint32:
  "sint (w :: 32 word) =
     (if unat w < 2147483648 then int (unat w) else int (unat w) - 4294967296)"
proof -
  have b: "0 \<le> uint w" "uint w < 2 * 2147483648" using uint_lt2p [of w] by simp_all
  have "sint w = signed_take_bit 31 (uint w)" by (simp add: sint_uint)
  also have "\<dots> = (uint w + 2147483648) mod (2 * 2147483648) - 2147483648"
    by (simp add: signed_take_bit_eq_take_bit_shift take_bit_eq_mod)
  also have "\<dots> = (if uint w < 2147483648 then uint w else uint w - 4294967296)"
    using shift_mod [OF b] by simp
  finally show ?thesis by (simp add: unat_less_int)
qed

lemma unat_ucast_8_32: "unat (ucast (b :: 8 word) :: 32 word) = unat b"
proof -
  have "unat b < 256" using unsigned_less [of b, where ?'a = nat] by simp
  then show ?thesis by (simp add: unsigned_ucast_eq take_bit_eq_mod)
qed

lemma sint_ucast_8_32: "sint (ucast (b :: 8 word) :: 32 word) = int (unat b)"
proof -
  have "unat b < 256" using unsigned_less [of b, where ?'a = nat] by simp
  then show ?thesis by (simp add: sint32 unat_ucast_8_32)
qed

lemma sint_scast_16_32: "sint (scast (w :: 16 word) :: 32 word) = sint w"
  by (simp add: sint_up_scast is_up)

lemma unat_ucast_32_16: "unat (ucast (v :: 32 word) :: 16 word) = unat v mod 65536"
  by (simp add: unsigned_ucast_eq take_bit_eq_mod)

lemma unat_ucast_32_8: "unat (ucast (v :: 32 word) :: 8 word) = unat v mod 256"
  by (simp add: unsigned_ucast_eq take_bit_eq_mod)

lemma load16_store16: "load16 (store16 m a v) a = v"
  unfolding load16_def store16_def
  by (rule bit_word_eqI) (auto simp: bit_simps)

lemma load32_store32: "load32 (store32 m a v) a = v"
  unfolding load32_def store32_def load16_def store16_def
  by (rule bit_word_eqI) (auto simp: bit_simps)

section \<open>Reading and writing an editable's cell\<close>

lemma getEditableNumber_1:
  assumes "p < length (field_mem st)" "size_e (field_mem st ! p) = 1"
  shows "\<exists>r. getEditableNumber st p = Inr r \<and> sint r = int (stored_value st p)"
  using assms by (simp add: getEditableNumber_def stored_value_def sint_ucast_8_32)

lemma getEditableNumber_2:
  assumes "p < length (field_mem st)" "size_e (field_mem st ! p) = 2"
  shows "\<exists>r. getEditableNumber st p = Inr r \<and>
     sint r = (if stored_value st p < 32768 then int (stored_value st p)
               else int (stored_value st p) - 65536)"
  using assms
  by (simp add: getEditableNumber_def stored_value_def sint_scast_16_32 sint16)

lemma getEditableNumber_4:
  assumes "p < length (field_mem st)" "size_e (field_mem st ! p) = 4"
  shows "\<exists>r. getEditableNumber st p = Inr r \<and>
     sint r = (if stored_value st p < 2147483648 then int (stored_value st p)
               else int (stored_value st p) - 4294967296)"
  using assms
  by (simp add: getEditableNumber_def stored_value_def sint32)

lemma setEditableNumber_1:
  assumes "p < length (field_mem st)" "size_e (field_mem st ! p) = 1"
  shows "\<exists>st'. setEditableNumber st p v = Inr st' \<and> field_mem st' = field_mem st \<and>
     curActiveEditable st' = curActiveEditable st \<and> stored_value st' p = unat v mod 256"
  using assms
  by (simp add: setEditableNumber_def stored_value_def unat_ucast_32_8)

lemma setEditableNumber_2:
  assumes "p < length (field_mem st)" "size_e (field_mem st ! p) = 2"
  shows "\<exists>st'. setEditableNumber st p v = Inr st' \<and> field_mem st' = field_mem st \<and>
     curActiveEditable st' = curActiveEditable st \<and> stored_value st' p = unat v mod 65536"
  using assms
  by (simp add: setEditableNumber_def stored_value_def load16_store16 unat_ucast_32_16)

lemma setEditableNumber_4:
  assumes "p < length (field_mem st)" "size_e (field_mem st ! p) = 4"
  shows "\<exists>st'. setEditableNumber st p v = Inr st' \<and> field_mem st' = field_mem st \<and>
     curActiveEditable st' = curActiveEditable st \<and> stored_value st' p = unat v"
  using assms
  by (simp add: setEditableNumber_def stored_value_def load32_store32)

section \<open>Claims about the editable engine\<close>

text \<open>
  Claim C10. Reading an editable is asymmetric in signedness. With \<open>size\<close> 1,
  \<open>getEditableNumber\<close> returns the stored byte unsigned (0..255); with \<open>size\<close> 2 it
  reads a signed 16-bit value, so a cell holding 32768 or more is returned negative; with
  \<open>size\<close> 4 it reads a signed 32-bit value. \<open>setEditableNumber\<close> stores the unsigned
  truncation of its argument for every width. Hence writing \<open>v\<close> to a 2-byte editable and
  reading it back returns \<open>v\<close> exactly when \<open>v < 32768\<close>.
\<close>

theorem editable_read_write_signedness:
  assumes "p < length (field_mem st)"
  shows
    "(size_e (field_mem st ! p) = 1 \<longrightarrow>
        (\<exists>r. getEditableNumber st p = Inr r \<and> sint r = int (stored_value st p)
              \<and> 0 \<le> sint r \<and> sint r \<le> 255)
      \<and> (\<exists>st'. setEditableNumber st p v = Inr st' \<and> stored_value st' p = unat v mod 256))
     \<and> (size_e (field_mem st ! p) = 2 \<longrightarrow>
        (\<exists>r. getEditableNumber st p = Inr r
              \<and> sint r = (if stored_value st p < 32768 then int (stored_value st p)
                           else int (stored_value st p) - 65536)
              \<and> (32768 \<le> stored_value st p \<longrightarrow> sint r < 0))
      \<and> (\<exists>st'. setEditableNumber st p v = Inr st' \<and> stored_value st' p = unat v mod 65536)
      \<and> (\<exists>st' r. setEditableNumber st p v = Inr st' \<and> getEditableNumber st' p = Inr r
              \<and> (sint r = int (unat v) \<longleftrightarrow> unat v < 32768)))
     \<and> (size_e (field_mem st ! p) = 4 \<longrightarrow>
        (\<exists>r. getEditableNumber st p = Inr r
              \<and> sint r = (if stored_value st p < 2147483648 then int (stored_value st p)
                           else int (stored_value st p) - 4294967296))
      \<and> (\<exists>st'. setEditableNumber st p v = Inr st' \<and> stored_value st' p = unat v))"
proof (intro conjI impI)
  assume s: "size_e (field_mem st ! p) = 1"
  have "stored_value st p < 256"
    using s unsigned_less [of "mem st (target (field_mem st ! p))", where ?'a = nat]
    by (simp add: stored_value_def)
  with getEditableNumber_1 [OF assms s]
  show "\<exists>r. getEditableNumber st p = Inr r \<and> sint r = int (stored_value st p)
              \<and> 0 \<le> sint r \<and> sint r \<le> 255"
    by auto
  from setEditableNumber_1 [OF assms s, of v]
  show "\<exists>st'. setEditableNumber st p v = Inr st' \<and> stored_value st' p = unat v mod 256"
    by blast
next
  assume s: "size_e (field_mem st ! p) = 2"
  have b: "stored_value st p < 65536"
    using s unsigned_less [of "load16 (mem st) (target (field_mem st ! p))", where ?'a = nat]
    by (simp add: stored_value_def)
  from getEditableNumber_2 [OF assms s] b
  show "\<exists>r. getEditableNumber st p = Inr r
              \<and> sint r = (if stored_value st p < 32768 then int (stored_value st p)
                           else int (stored_value st p) - 65536)
              \<and> (32768 \<le> stored_value st p \<longrightarrow> sint r < 0)"
    by auto
  from setEditableNumber_2 [OF assms s, of v]
  obtain st' where st': "setEditableNumber st p v = Inr st'" "field_mem st' = field_mem st"
    "stored_value st' p = unat v mod 65536" by blast
  then show "\<exists>st'. setEditableNumber st p v = Inr st' \<and> stored_value st' p = unat v mod 65536"
    by blast
  from st' assms s have v: "p < length (field_mem st')" "size_e (field_mem st' ! p) = 2"
    by simp_all
  from getEditableNumber_2 [OF v] obtain r where r: "getEditableNumber st' p = Inr r"
    "sint r = (if stored_value st' p < 32768 then int (stored_value st' p)
               else int (stored_value st' p) - 65536)" by blast
  have "sint r = int (unat v) \<longleftrightarrow> unat v < 32768"
  proof
    assume a: "sint r = int (unat v)"
    have m: "unat v mod 65536 < 65536" by simp
    show "unat v < 32768"
    proof (cases "unat v mod 65536 < 32768")
      case True
      with r(2) st'(3) a have "int (unat v) = int (unat v mod 65536)" by simp
      with True show ?thesis by linarith
    next
      case False
      with r(2) st'(3) a have "int (unat v) = int (unat v mod 65536) - 65536" by simp
      with m show ?thesis by linarith
    qed
  next
    assume "unat v < 32768"
    with r(2) st'(3) show "sint r = int (unat v)" by simp
  qed
  with st'(1) r(1)
  show "\<exists>st' r. setEditableNumber st p v = Inr st' \<and> getEditableNumber st' p = Inr r
              \<and> (sint r = int (unat v) \<longleftrightarrow> unat v < 32768)"
    by blast
next
  assume s: "size_e (field_mem st ! p) = 4"
  from getEditableNumber_4 [OF assms s]
  show "\<exists>r. getEditableNumber st p = Inr r
              \<and> sint r = (if stored_value st p < 2147483648 then int (stored_value st p)
                           else int (stored_value st p) - 4294967296)" .
  from setEditableNumber_4 [OF assms s, of v]
  show "\<exists>st'. setEditableNumber st p v = Inr st' \<and> stored_value st' p = unat v"
    by blast
qed


theorem editable_read_write_signedness_witness:
  "0 < length (field_mem (uint_editable 1 0 255 1))
   \<and> size_e (field_mem (uint_editable 1 0 255 1) ! 0) = 1
   \<and> (\<exists>st'. setEditableNumber (uint_editable 1 0 255 1) 0 300 = Inr st' \<and> stored_value st' 0 = 44)
   \<and> 0 < length (field_mem (uint_editable 2 0 65535 1))
   \<and> size_e (field_mem (uint_editable 2 0 65535 1) ! 0) = 2
   \<and> (\<exists>st' r. setEditableNumber (uint_editable 2 0 65535 1) 0 40000 = Inr st'
          \<and> getEditableNumber st' 0 = Inr r \<and> sint r \<noteq> 40000)
   \<and> 0 < length (field_mem (uint_editable 4 0 65535 1))
   \<and> size_e (field_mem (uint_editable 4 0 65535 1) ! 0) = 4
   \<and> (\<exists>st'. setEditableNumber (uint_editable 4 0 65535 1) 0 40000 = Inr st'
          \<and> stored_value st' 0 = 40000)"
proof -
  have l: "0 < length (field_mem (uint_editable k lo hi step))" for k lo hi step
    by (simp add: uint_editable_def)
  have s: "size_e (field_mem (uint_editable k lo hi step) ! 0) = k" for k lo hi step
    by (simp add: uint_editable_def)
  from editable_read_write_signedness [OF l, of 1 0 255 1 300]
  have a: "\<exists>st'. setEditableNumber (uint_editable 1 0 255 1) 0 300 = Inr st' \<and> stored_value st' 0 = 44"
    by (simp add: s)
  from editable_read_write_signedness [OF l, of 2 0 65535 1 40000]
  have b: "\<exists>st' r. setEditableNumber (uint_editable 2 0 65535 1) 0 40000 = Inr st'
          \<and> getEditableNumber st' 0 = Inr r \<and> sint r \<noteq> 40000"
    by (simp add: s)
  from editable_read_write_signedness [OF l, of 4 0 65535 1 40000]
  have c: "\<exists>st'. setEditableNumber (uint_editable 4 0 65535 1) 0 40000 = Inr st'
          \<and> stored_value st' 0 = 40000"
    by (simp add: s)
  from a b c l s show ?thesis by simp
qed

section \<open>Claim about fieldPrintf\<close>

lemma length_vsnprintf_buf: "0 < n \<Longrightarrow> length (vsnprintf_buf n s) < n"
proof -
  assume "0 < n"
  have "length (vsnprintf_buf n s) \<le> length (take (n - 1) s)"
    unfolding vsnprintf_buf_def by (rule length_takeWhile_le)
  also have "\<dots> \<le> n - 1" by simp
  finally show ?thesis using \<open>0 < n\<close> by simp
qed

text \<open>
  Claim C9. \<open>fieldPrintf\<close> leaves the formatted string, bounded to the buffer
  (\<open>MAX_FIELD_LEN - 1\<close> characters), in the text Field; it sets the Field's dirty flag
  when that string differs from the one stored before and changes nothing (neither buffer
  nor flag) when it is the same. So it is idempotent: a second call that produces the same
  string returns the state of the first unchanged, and a flag that is false stays false.
\<close>

theorem fieldPrintf_dirty_iff_changed:
  assumes "p < length (field_mem st)"
  shows "\<exists>st'. fieldPrintf p s st = Inr st'
     \<and> msg (field_mem st' ! p) = vsnprintf_buf MAX_FIELD_LEN s
     \<and> length (msg (field_mem st' ! p)) < MAX_FIELD_LEN
     \<and> (vsnprintf_buf MAX_FIELD_LEN s \<noteq> msg (field_mem st ! p) \<longrightarrow> dirty (field_mem st' ! p))
     \<and> (vsnprintf_buf MAX_FIELD_LEN s = msg (field_mem st ! p) \<longrightarrow> st' = st)
     \<and> (\<forall>s2. vsnprintf_buf MAX_FIELD_LEN s2 = vsnprintf_buf MAX_FIELD_LEN s
            \<longrightarrow> fieldPrintf p s2 st' = Inr st')"
proof -
  have n: "length (vsnprintf_buf MAX_FIELD_LEN s) < MAX_FIELD_LEN"
    by (rule length_vsnprintf_buf) (simp add: MAX_FIELD_LEN_def)
  show ?thesis
  proof (cases "vsnprintf_buf MAX_FIELD_LEN s = msg (field_mem st ! p)")
    case True
    with assms n show ?thesis by (simp add: fieldPrintf_def)
  next
    case False
    with assms n show ?thesis by (simp add: fieldPrintf_def upd_field_def)
  qed
qed

theorem fieldPrintf_dirty_iff_changed_witness:
  "0 < length (field_mem text_example)
   \<and> (\<exists>st'. fieldPrintf 0 ''battery voltage 52.1 V'' text_example = Inr st'
        \<and> msg (field_mem st' ! 0) = ''battery voltage''
        \<and> dirty (field_mem st' ! 0)
        \<and> fieldPrintf 0 ''battery voltage 52.1 V'' st' = Inr st')
   \<and> fieldPrintf 0 ''12 km/h'' text_example = Inr text_example
   \<and> \<not> dirty (field_mem text_example ! 0)"
proof -
  have l: "0 < length (field_mem text_example)" by (simp add: text_example_def)
  have b: "vsnprintf_buf MAX_FIELD_LEN ''battery voltage 52.1 V'' = ''battery voltage''"
    by (simp add: vsnprintf_buf_def MAX_FIELD_LEN_def)
  have c: "vsnprintf_buf MAX_FIELD_LEN ''12 km/h'' = ''12 km/h''"
    by (simp add: vsnprintf_buf_def MAX_FIELD_LEN_def)
  have m: "msg (field_mem text_example ! 0) = ''12 km/h''"
    by (simp add: text_example_def)
  from fieldPrintf_dirty_iff_changed [OF l, of "''battery voltage 52.1 V''"]
  have 1: "\<exists>st'. fieldPrintf 0 ''battery voltage 52.1 V'' text_example = Inr st'
        \<and> msg (field_mem st' ! 0) = ''battery voltage''
        \<and> dirty (field_mem st' ! 0)
        \<and> fieldPrintf 0 ''battery voltage 52.1 V'' st' = Inr st'"
    by (auto simp: b m)
  from fieldPrintf_dirty_iff_changed [OF l, of "''12 km/h''"]
  have 2: "fieldPrintf 0 ''12 km/h'' text_example = Inr text_example"
    by (auto simp: c m)
  have 3: "\<not> dirty (field_mem text_example ! 0)"
    by (simp add: text_example_def zero_state_def zero_Field_def)
  from l 1 2 3 show ?thesis by blast
qed

section \<open>Claims about the scrollable stack and the button dispatch\<close>

text \<open>
  Claim C5. \<open>enterScrollable\<close> called with fewer than \<open>MAX_SCROLLABLE_DEPTH\<close> (3)
  entries on the stack makes the stack one deeper with the pushed Field on top, sets the
  pushed Field's \<open>blink\<close> and marks the scrollable at the bottom of the stack (the root)
  dirty; called with \<open>MAX_SCROLLABLE_DEPTH\<close> entries on the stack it fails the assertion,
  and no state with a truncated stack comes back.
\<close>

theorem enterScrollable_push:
  assumes "f < length (field_mem st)"
    and "scrollableStackPtr st \<noteq> 0 \<longrightarrow> scrollableStack st 0 < length (field_mem st)"
  shows "(scrollableStackPtr st < MAX_SCROLLABLE_DEPTH \<longrightarrow>
           (\<exists>st'. enterScrollable f st = Inr st'
              \<and> scrollableStackPtr st' = scrollableStackPtr st + 1
              \<and> getActiveScrollable st' = Some f
              \<and> (\<forall>i < scrollableStackPtr st. scrollableStack st' i = scrollableStack st i)
              \<and> blink (field_mem st' ! f)
              \<and> scrollableStack st' 0 = (if scrollableStackPtr st = 0 then f else scrollableStack st 0)
              \<and> dirty (field_mem st' ! scrollableStack st' 0)))
       \<and> (scrollableStackPtr st = MAX_SCROLLABLE_DEPTH \<longrightarrow> enterScrollable f st = Inl AssertFailed)"
proof (intro conjI impI)
  assume d: "scrollableStackPtr st < MAX_SCROLLABLE_DEPTH"
  show "\<exists>st'. enterScrollable f st = Inr st'
              \<and> scrollableStackPtr st' = scrollableStackPtr st + 1
              \<and> getActiveScrollable st' = Some f
              \<and> (\<forall>i < scrollableStackPtr st. scrollableStack st' i = scrollableStack st i)
              \<and> blink (field_mem st' ! f)
              \<and> scrollableStack st' 0 = (if scrollableStackPtr st = 0 then f else scrollableStack st 0)
              \<and> dirty (field_mem st' ! scrollableStack st' 0)"
  proof (cases "scrollableStackPtr st = 0")
    case True
    with assms d show ?thesis
      by (simp add: enterScrollable_def upd_field_def getActiveScrollable_def Let_def)
  next
    case False
    with assms d show ?thesis
      by (simp add: enterScrollable_def upd_field_def getActiveScrollable_def Let_def nth_list_update)
  qed
next
  assume "scrollableStackPtr st = MAX_SCROLLABLE_DEPTH"
  then show "enterScrollable f st = Inl AssertFailed"
    by (simp add: enterScrollable_def)
qed

theorem enterScrollable_push_witness:
  "1 < length (field_mem (menu_example 1))
   \<and> scrollableStack (menu_example 1) 0 < length (field_mem (menu_example 1))
   \<and> scrollableStackPtr (menu_example 1) < MAX_SCROLLABLE_DEPTH
   \<and> (\<exists>st'. enterScrollable 1 (menu_example 1) = Inr st'
         \<and> scrollableStackPtr st' = 2 \<and> getActiveScrollable st' = Some 1
         \<and> blink (field_mem st' ! 1) \<and> dirty (field_mem st' ! 0))
   \<and> 1 < length (field_mem (menu_example 3))
   \<and> scrollableStack (menu_example 3) 0 < length (field_mem (menu_example 3))
   \<and> scrollableStackPtr (menu_example 3) = MAX_SCROLLABLE_DEPTH
   \<and> enterScrollable 1 (menu_example 3) = Inl AssertFailed"
proof -
  have l: "1 < length (field_mem (menu_example d))" for d
    by (simp add: menu_example_def menu_fields_def)
  have r: "scrollableStackPtr (menu_example d) \<noteq> 0 \<longrightarrow>
        scrollableStack (menu_example d) 0 < length (field_mem (menu_example d))" for d
    by (simp add: menu_example_def menu_fields_def)
  have p: "scrollableStackPtr (menu_example d) = d" "scrollableStack (menu_example d) 0 = 0" for d
    by (simp_all add: menu_example_def)
  from enterScrollable_push [OF l r, of 1]
  have a: "\<exists>st'. enterScrollable 1 (menu_example 1) = Inr st'
         \<and> scrollableStackPtr st' = 2 \<and> getActiveScrollable st' = Some 1
         \<and> blink (field_mem st' ! 1) \<and> dirty (field_mem st' ! 0)"
    by (auto simp: p MAX_SCROLLABLE_DEPTH_def)
  from enterScrollable_push [OF l r, of 3]
  have b: "enterScrollable 1 (menu_example 3) = Inl AssertFailed"
    by (simp add: p MAX_SCROLLABLE_DEPTH_def)
  have r': "scrollableStack (menu_example d) 0 < length (field_mem (menu_example d))" for d
    by (simp add: menu_example_def menu_fields_def)
  from l r' a b p show ?thesis by (simp add: MAX_SCROLLABLE_DEPTH_def)
qed

text \<open>
  Claim C6, as stated (the exit press is reported handled whenever the stack was non-empty
  before the pop), fails: with one scrollable on the stack the press pops it and is
  reported unhandled.
\<close>

theorem onPressScrollable_exit_counterexample:
  "getActiveScrollable (menu_example 1) = Some 0
   \<and> onPressScrollable {ONOFF_CLICK} (menu_example 1)
       = Inr (False, (menu_example 1)\<lparr>scrollableStackPtr := 0\<rparr>)"
  by (simp add: onPressScrollable_def exitScrollable_def getActiveScrollable_def
      menu_example_def)

text \<open>
  Claim C6, amended. An exit press (no other flag of the scrollable handler set) reaching
  \<open>onPressScrollable\<close> with an empty stack is returned unhandled and nothing is popped.
  With a non-empty stack it pops one entry, and the press is reported handled exactly when
  the stack is still non-empty after the pop (the scrollable then on top is marked dirty);
  popping the last entry is reported unhandled, so that an outer layer may act.
\<close>

theorem onPressScrollable_exit:
  assumes "ONOFF_CLICK \<in> events" "UP_CLICK \<notin> events" "DOWN_CLICK \<notin> events"
    "M_CLICK \<notin> events"
    and "1 < scrollableStackPtr st \<longrightarrow>
           scrollableStack st (scrollableStackPtr st - 2) < length (field_mem st)"
  shows "(scrollableStackPtr st = 0 \<longrightarrow> onPressScrollable events st = Inr (False, st))
       \<and> (scrollableStackPtr st \<noteq> 0 \<longrightarrow>
            (\<exists>st'. onPressScrollable events st = Inr (1 < scrollableStackPtr st, st')
               \<and> scrollableStackPtr st' = scrollableStackPtr st - 1
               \<and> scrollableStack st' = scrollableStack st
               \<and> (1 < scrollableStackPtr st \<longleftrightarrow> getActiveScrollable st' \<noteq> None)
               \<and> (1 < scrollableStackPtr st \<longrightarrow>
                     dirty (field_mem st' ! scrollableStack st (scrollableStackPtr st - 2)))))"
proof (intro conjI impI)
  assume "scrollableStackPtr st = 0"
  then show "onPressScrollable events st = Inr (False, st)"
    by (simp add: onPressScrollable_def getActiveScrollable_def)
next
  assume n: "scrollableStackPtr st \<noteq> 0"
  show "\<exists>st'. onPressScrollable events st = Inr (1 < scrollableStackPtr st, st')
               \<and> scrollableStackPtr st' = scrollableStackPtr st - 1
               \<and> scrollableStack st' = scrollableStack st
               \<and> (1 < scrollableStackPtr st \<longleftrightarrow> getActiveScrollable st' \<noteq> None)
               \<and> (1 < scrollableStackPtr st \<longrightarrow>
                     dirty (field_mem st' ! scrollableStack st (scrollableStackPtr st - 2)))"
  proof (cases "1 < scrollableStackPtr st")
    case True
    have e: "scrollableStackPtr st - Suc (Suc 0) = scrollableStackPtr st - 2" by simp
    from True n assms show ?thesis
      by (simp add: onPressScrollable_def exitScrollable_def getActiveScrollable_def
          upd_field_def e)
  next
    case False
    with n have "scrollableStackPtr st = 1" by simp
    with assms show ?thesis
      by (simp add: onPressScrollable_def exitScrollable_def getActiveScrollable_def)
  qed
qed

theorem onPressScrollable_exit_witness:
  "ONOFF_CLICK \<in> {ONOFF_CLICK} \<and> UP_CLICK \<notin> {ONOFF_CLICK} \<and> DOWN_CLICK \<notin> {ONOFF_CLICK}
   \<and> M_CLICK \<notin> {ONOFF_CLICK}
   \<and> scrollableStack (menu_example 2) (scrollableStackPtr (menu_example 2) - 2)
        < length (field_mem (menu_example 2))
   \<and> (\<exists>st'. onPressScrollable {ONOFF_CLICK} (menu_example 2) = Inr (True, st')
         \<and> scrollableStackPtr st' = 1 \<and> dirty (field_mem st' ! 0))
   \<and> (\<exists>st'. onPressScrollable {ONOFF_CLICK} (menu_example 1) = Inr (False, st')
         \<and> scrollableStackPtr st' = 0)
   \<and> onPressScrollable {ONOFF_CLICK} (menu_example 0) = Inr (False, menu_example 0)"
proof -
  have r: "1 < scrollableStackPtr (menu_example d) \<longrightarrow>
        scrollableStack (menu_example d) (scrollableStackPtr (menu_example d) - 2)
          < length (field_mem (menu_example d))" for d
    by (simp add: menu_example_def menu_fields_def)
  have p: "scrollableStackPtr (menu_example d) = d" "scrollableStack (menu_example d) 0 = 0" for d
    by (simp_all add: menu_example_def)
  have e: "ONOFF_CLICK \<in> {ONOFF_CLICK}" "UP_CLICK \<notin> {ONOFF_CLICK}" "DOWN_CLICK \<notin> {ONOFF_CLICK}"
    "M_CLICK \<notin> {ONOFF_CLICK}" by simp_all
  from onPressScrollable_exit [OF e r, of 2]
  have a: "\<exists>st'. onPressScrollable {ONOFF_CLICK} (menu_example 2) = Inr (True, st')
         \<and> scrollableStackPtr st' = 1 \<and> dirty (field_mem st' ! 0)"
    by (auto simp: p)
  from onPressScrollable_exit [OF e r, of 1]
  have b: "\<exists>st'. onPressScrollable {ONOFF_CLICK} (menu_example 1) = Inr (False, st')
         \<and> scrollableStackPtr st' = 0"
    by (auto simp: p)
  from onPressScrollable_exit [OF e r, of 0]
  have c: "onPressScrollable {ONOFF_CLICK} (menu_example 0) = Inr (False, menu_example 0)"
    by (simp add: p)
  from r [of 2] have "scrollableStack (menu_example 2) (scrollableStackPtr (menu_example 2) - 2)
        < length (field_mem (menu_example 2))" by (simp add: p)
  with a b c show ?thesis by simp
qed

text \<open>
  Claim C7. \<open>screenOnPress\<close> tries the handlers in a fixed order and stops at the first
  one that claims the event: the editable handler (only when an editable is active), then
  the scrollable handler, then the current screen's \<open>onPress\<close> (only when a screen is
  shown and it has registered one). It returns false exactly when every handler that was
  tried returned false.
\<close>

theorem screenOnPress_order:
  "screenOnPress curScreen events st =
     first_claim
       ((if curActiveEditable st \<noteq> None then [onPressEditable events] else [])
        @ [onPressScrollable events]
        @ (case curScreen of
             None \<Rightarrow> []
           | Some scr \<Rightarrow>
               (case onPress scr of None \<Rightarrow> [] | Some h \<Rightarrow> [\<lambda>s. Inr (h events s)]))) st
   \<and> (screenOnPress curScreen events st = Inr (False, st') \<longleftrightarrow>
        (\<exists>st1 st2.
           (if curActiveEditable st \<noteq> None then onPressEditable events st else Inr (False, st))
             = Inr (False, st1)
           \<and> onPressScrollable events st1 = Inr (False, st2)
           \<and> (case curScreen of
                 None \<Rightarrow> st' = st2
               | Some scr \<Rightarrow>
                   (case onPress scr of
                      None \<Rightarrow> st' = st2
                    | Some h \<Rightarrow> h events st2 = (False, st')))))"
  by (auto simp: screenOnPress_def split: sum.splits option.splits prod.splits if_splits)


theorem screenOnPress_order_witness:
  "screenOnPress (Some \<lparr>onPress = Some (\<lambda>ev s. (True, s)), screen_fields = 0\<rparr>) {M_CLICK}
       (menu_example 0) = Inr (True, menu_example 0)
   \<and> screenOnPress (Some \<lparr>onPress = None, screen_fields = 0\<rparr>) {M_CLICK}
       (menu_example 0) = Inr (False, menu_example 0)
   \<and> (\<exists>st'. screenOnPress (Some \<lparr>onPress = Some (\<lambda>ev s. (True, s)), screen_fields = 0\<rparr>)
         {UP_CLICK} (menu_example 2) = Inr (True, st') \<and> dirty (field_mem st' ! 0))"
proof -
  have a: "curActiveEditable (menu_example d) = None" for d
    by (simp add: menu_example_def zero_state_def)
  have b: "onPressScrollable ev (menu_example 0) = Inr (False, menu_example 0)" for ev
    by (simp add: onPressScrollable_def getActiveScrollable_def menu_example_def)
  have c: "\<exists>st'. onPressScrollable {UP_CLICK} (menu_example 2) = Inr (True, st')
      \<and> dirty (field_mem st' ! 0)"
    by (simp add: onPressScrollable_def onPressScrollable_up_def forceScrollableRender_def
        getActiveScrollable_def menu_example_def menu_fields_def upd_field_def zero_Field_def)
  from screenOnPress_order
    [of "Some \<lparr>onPress = Some (\<lambda>ev s. (True, s)), screen_fields = 0\<rparr>" "{M_CLICK}"
        "menu_example 0"]
  have 1: "screenOnPress (Some \<lparr>onPress = Some (\<lambda>ev s. (True, s)), screen_fields = 0\<rparr>)
       {M_CLICK} (menu_example 0) = Inr (True, menu_example 0)"
    by (simp add: a b)
  from screenOnPress_order
    [of "Some \<lparr>onPress = None, screen_fields = 0\<rparr>" "{M_CLICK}" "menu_example 0"]
  have 2: "screenOnPress (Some \<lparr>onPress = None, screen_fields = 0\<rparr>) {M_CLICK}
       (menu_example 0) = Inr (False, menu_example 0)"
    by (simp add: a b)
  from c obtain st' where st': "onPressScrollable {UP_CLICK} (menu_example 2) = Inr (True, st')"
    "dirty (field_mem st' ! 0)" by blast
  from screenOnPress_order
    [of "Some \<lparr>onPress = Some (\<lambda>ev s. (True, s)), screen_fields = 0\<rparr>" "{UP_CLICK}"
        "menu_example 2"]
  have "screenOnPress (Some \<lparr>onPress = Some (\<lambda>ev s. (True, s)), screen_fields = 0\<rparr>)
         {UP_CLICK} (menu_example 2) = Inr (True, st')"
    by (simp add: a st')
  with st' 1 2 show ?thesis by blast
qed

section \<open>Claims about scrollable navigation\<close>

lemma w8_inc: "uint (w :: 8 word) < 255 \<Longrightarrow> uint (w + 1) = uint w + 1"
  by (simp add: uint_word_ariths)

lemma w8_dec: "1 \<le> (w :: 8 word) \<Longrightarrow> uint (w - 1) = uint w - 1"
proof -
  assume "1 \<le> w"
  then have "1 \<le> uint w" by (simp add: word_le_def)
  moreover have "uint w < 256" using uint_lt2p [of w] by simp
  ultimately show ?thesis by (simp add: uint_word_ariths)
qed

lemma w8_sub2: "2 \<le> uint (w :: 8 word) \<Longrightarrow> uint (w - 2) = uint w - 2"
proof -
  assume "2 \<le> uint w"
  moreover have "uint w < 256" using uint_lt2p [of w] by simp
  ultimately show ?thesis by (simp add: uint_word_ariths)
qed

lemma countEntries_loop_variants:
  "map variant xs = map variant ys \<Longrightarrow> countEntries_loop xs n = countEntries_loop ys n"
proof (induction xs arbitrary: ys n)
  case Nil
  then show ?case by simp
next
  case (Cons x xs)
  then obtain y ys' where ys: "ys = y # ys'" by (cases ys) auto
  with Cons.prems have "variant x = variant y" "map variant xs = map variant ys'" by simp_all
  with Cons.IH [of ys'] ys show ?case by simp
qed

lemma countEntries_same:
  assumes "map variant (field_mem st') = map variant (field_mem st)"
    and "map entries (field_mem st') = map entries (field_mem st)"
  shows "countEntries st' s = countEntries st s"
proof -
  from assms(1) have l: "length (field_mem st') = length (field_mem st)"
    by (rule map_eq_imp_length_eq)
  have e: "s < length (field_mem st) \<Longrightarrow> entries (field_mem st' ! s) = entries (field_mem st ! s)"
    using assms(2) l by (metis nth_map)
  have d: "map variant (drop k (field_mem st')) = map variant (drop k (field_mem st))" for k
    using assms(1) by (simp add: drop_map [symmetric])
  show ?thesis
    using l e countEntries_loop_variants [OF d]
    by (auto simp: countEntries_def split: option.splits)
qed


lemma map_list_update_same:
  "f (g (xs ! p)) = f (xs ! p) \<Longrightarrow> map f (xs[p := g (xs ! p)]) = map f xs"
  by (simp add: map_update) (metis list_update_id map_update)

lemma forceScrollableRender_ok:
  assumes "scrollableStackPtr st \<noteq> 0" "scrollableStack st 0 < length (field_mem st)"
  shows "forceScrollableRender st =
     Inr ((upd_field (scrollableStack st 0) (\<lambda>x. x\<lparr>dirty := True\<rparr>) st)
            \<lparr>forceScrollableRelayout := True\<rparr>)"
  using assms by (simp add: forceScrollableRender_def getActiveScrollable_def)

lemma onPressScrollable_up_result:
  assumes "s < length (field_mem st)" "scrollableStackPtr st \<noteq> 0"
    "scrollableStack st 0 < length (field_mem st)"
  shows "\<exists>st'. onPressScrollable_up s st = Inr st'
     \<and> map variant (field_mem st') = map variant (field_mem st)
     \<and> map entries (field_mem st') = map entries (field_mem st)
     \<and> scrollableStack st' = scrollableStack st
     \<and> scrollableStackPtr st' = scrollableStackPtr st
     \<and> selected (field_mem st' ! s) =
         (if 1 \<le> selected (field_mem st ! s) then selected (field_mem st ! s) - 1
          else selected (field_mem st ! s))
     \<and> first (field_mem st' ! s) =
         (if selected (field_mem st' ! s) < first (field_mem st ! s)
          then selected (field_mem st' ! s) else first (field_mem st ! s))"
  using assms
  by (simp add: onPressScrollable_up_def forceScrollableRender_ok upd_field_def Let_def
      nth_list_update map_list_update_same)

lemma onPressScrollable_down_result:
  assumes "s < length (field_mem st)" "scrollableStackPtr st \<noteq> 0"
    "scrollableStack st 0 < length (field_mem st)" "countEntries st s = Inr n"
  shows "\<exists>st'. onPressScrollable_down s st = Inr st'
     \<and> map variant (field_mem st') = map variant (field_mem st)
     \<and> map entries (field_mem st') = map entries (field_mem st)
     \<and> scrollableStack st' = scrollableStack st
     \<and> scrollableStackPtr st' = scrollableStackPtr st
     \<and> selected (field_mem st' ! s) =
         (if uint (selected (field_mem st ! s)) < n - 1 then selected (field_mem st ! s) + 1
          else selected (field_mem st ! s))
     \<and> first (field_mem st' ! s) =
         (if uint (selected (field_mem st' ! s)) > uint (first (field_mem st ! s)) + 2
          then selected (field_mem st' ! s) - 2 else first (field_mem st ! s))"
  using assms
  by (simp add: onPressScrollable_down_def forceScrollableRender_ok upd_field_def Let_def
      nth_list_update map_list_update_same MAX_SCROLLABLE_ROWS_def)


lemma up_keeps_window:
  assumes "s < length (field_mem st)" "scrollableStackPtr st \<noteq> 0"
    "scrollableStack st 0 < length (field_mem st)" "countEntries st s = Inr n"
    "uint (first (field_mem st ! s)) \<le> uint (selected (field_mem st ! s))"
    "uint (selected (field_mem st ! s)) \<le> n - 1"
  shows "\<exists>st'. onPressScrollable_up s st = Inr st'
     \<and> length (field_mem st') = length (field_mem st)
     \<and> scrollableStack st' = scrollableStack st
     \<and> scrollableStackPtr st' = scrollableStackPtr st
     \<and> countEntries st' s = Inr n
     \<and> uint (first (field_mem st' ! s)) \<le> uint (selected (field_mem st' ! s))
     \<and> uint (selected (field_mem st' ! s)) \<le> n - 1"
proof -
  from onPressScrollable_up_result [OF assms(1-3)] obtain st' where
    r: "onPressScrollable_up s st = Inr st'"
    and v: "map variant (field_mem st') = map variant (field_mem st)"
    and e: "map entries (field_mem st') = map entries (field_mem st)"
    and k: "scrollableStack st' = scrollableStack st"
      "scrollableStackPtr st' = scrollableStackPtr st"
    and sel: "selected (field_mem st' ! s) =
         (if 1 \<le> selected (field_mem st ! s) then selected (field_mem st ! s) - 1
          else selected (field_mem st ! s))"
    and fst: "first (field_mem st' ! s) =
         (if selected (field_mem st' ! s) < first (field_mem st ! s)
          then selected (field_mem st' ! s) else first (field_mem st ! s))"
    by blast
  have l: "length (field_mem st') = length (field_mem st)"
    using v by (rule map_eq_imp_length_eq)
  have c: "countEntries st' s = Inr n"
    using countEntries_same [OF v e] assms(4) by simp
  have s1: "uint (selected (field_mem st' ! s)) \<le> uint (selected (field_mem st ! s))"
    using sel by (simp add: w8_dec)
  have f1: "uint (first (field_mem st' ! s)) \<le> uint (selected (field_mem st' ! s))"
    using fst by (simp add: word_less_def)
  from r l k c s1 f1 assms(6) show ?thesis by auto
qed

lemma down_keeps_window:
  assumes "s < length (field_mem st)" "scrollableStackPtr st \<noteq> 0"
    "scrollableStack st 0 < length (field_mem st)" "countEntries st s = Inr n"
    "uint (first (field_mem st ! s)) \<le> uint (selected (field_mem st ! s))"
    "uint (selected (field_mem st ! s)) \<le> n - 1" "n \<le> 256"
  shows "\<exists>st'. onPressScrollable_down s st = Inr st'
     \<and> length (field_mem st') = length (field_mem st)
     \<and> scrollableStack st' = scrollableStack st
     \<and> scrollableStackPtr st' = scrollableStackPtr st
     \<and> countEntries st' s = Inr n
     \<and> uint (first (field_mem st' ! s)) \<le> uint (selected (field_mem st' ! s))
     \<and> uint (selected (field_mem st' ! s)) \<le> n - 1"
proof -
  from onPressScrollable_down_result [OF assms(1-4)] obtain st' where
    r: "onPressScrollable_down s st = Inr st'"
    and v: "map variant (field_mem st') = map variant (field_mem st)"
    and e: "map entries (field_mem st') = map entries (field_mem st)"
    and k: "scrollableStack st' = scrollableStack st"
      "scrollableStackPtr st' = scrollableStackPtr st"
    and sel: "selected (field_mem st' ! s) =
         (if uint (selected (field_mem st ! s)) < n - 1 then selected (field_mem st ! s) + 1
          else selected (field_mem st ! s))"
    and fst: "first (field_mem st' ! s) =
         (if uint (selected (field_mem st' ! s)) > uint (first (field_mem st ! s)) + 2
          then selected (field_mem st' ! s) - 2 else first (field_mem st ! s))"
    by blast
  have l: "length (field_mem st') = length (field_mem st)"
    using v by (rule map_eq_imp_length_eq)
  have c: "countEntries st' s = Inr n"
    using countEntries_same [OF v e] assms(4) by simp
  have s1: "uint (selected (field_mem st ! s)) \<le> uint (selected (field_mem st' ! s))
      \<and> uint (selected (field_mem st' ! s)) \<le> n - 1"
  proof (cases "uint (selected (field_mem st ! s)) < n - 1")
    case True
    with assms(7) have "uint (selected (field_mem st ! s)) < 255" by simp
    with True sel show ?thesis by (simp add: w8_inc)
  next
    case False
    with sel assms(6) show ?thesis by simp
  qed
  have f1: "uint (first (field_mem st' ! s)) \<le> uint (selected (field_mem st' ! s))"
  proof (cases "uint (selected (field_mem st' ! s)) > uint (first (field_mem st ! s)) + 2")
    case True
    have "0 \<le> uint (first (field_mem st ! s))" by simp
    with True have "2 \<le> uint (selected (field_mem st' ! s))" by linarith
    with True fst show ?thesis by (simp add: w8_sub2)
  next
    case False
    with fst s1 assms(5) show ?thesis by simp
  qed
  from r l k c s1 f1 show ?thesis by auto
qed

text \<open>
  Claim C3, as stated (for every active scrollable with
  \<open>0 \<le> first \<le> selected \<le> entry_count - 1\<close> the bounds hold again after an up or down
  press), fails for a menu of more than 256 entries: \<open>selected\<close> is a \<open>uint8_t\<close>, and
  a down press at \<open>selected = 255\<close> with 257 entries wraps it to 0, below \<open>first\<close>.
\<close>

theorem navigation_window_counterexample:
  "getActiveScrollable (flat_menu 257 253 255) = Some 258
   \<and> countEntries (flat_menu 257 253 255) 258 = Inr 257
   \<and> scroll_window (flat_menu 257 253 255) 258 = (253, 255)
   \<and> window_after [{DOWN_CLICK}] (flat_menu 257 253 255) 258 = Some (253, 0)"
  by code_simp

text \<open>
  Claim C3, amended. For an active scrollable of at most 256 entries (every entry index
  fits the 8-bit \<open>first\<close> and \<open>selected\<close>) whose state satisfies
  \<open>0 \<le> first \<le> selected \<le> entry_count - 1\<close>, a press made of up and down
  navigation is handled without a fault and the same bounds hold after it: \<open>selected\<close>
  does not fall below 0, does not exceed \<open>entry_count - 1\<close>, and \<open>first \<le> selected\<close>.
\<close>

theorem navigation_keeps_window:
  assumes "getActiveScrollable st = Some s" "s < length (field_mem st)"
    "scrollableStack st 0 < length (field_mem st)"
    "countEntries st s = Inr n" "n \<le> 256"
    "uint (first (field_mem st ! s)) \<le> uint (selected (field_mem st ! s))"
    "uint (selected (field_mem st ! s)) \<le> n - 1"
    "M_CLICK \<notin> events" "ONOFF_CLICK \<notin> events"
  shows "\<exists>st'. onPressScrollable events st
          = Inr (UP_CLICK \<in> events \<or> DOWN_CLICK \<in> events, st')
     \<and> countEntries st' s = Inr n
     \<and> 0 \<le> uint (first (field_mem st' ! s))
     \<and> uint (first (field_mem st' ! s)) \<le> uint (selected (field_mem st' ! s))
     \<and> uint (selected (field_mem st' ! s)) \<le> n - 1"
proof -
  from assms(1) have p: "scrollableStackPtr st \<noteq> 0"
    by (auto simp: getActiveScrollable_def split: if_splits)
  have "\<exists>st1. (if UP_CLICK \<in> events
                then (case onPressScrollable_up s st of
                        Inl e \<Rightarrow> Inl e | Inr st' \<Rightarrow> Inr (True, st'))
                else Inr (False, st)) = Inr (UP_CLICK \<in> events, st1)
     \<and> length (field_mem st1) = length (field_mem st)
     \<and> scrollableStack st1 = scrollableStack st
     \<and> scrollableStackPtr st1 = scrollableStackPtr st
     \<and> countEntries st1 s = Inr n
     \<and> uint (first (field_mem st1 ! s)) \<le> uint (selected (field_mem st1 ! s))
     \<and> uint (selected (field_mem st1 ! s)) \<le> n - 1"
  proof (cases "UP_CLICK \<in> events")
    case True
    with up_keeps_window [OF assms(2) p assms(3,4,6,7)] show ?thesis by auto
  next
    case False
    with assms show ?thesis by simp
  qed
  then obtain st1 where
    u: "(if UP_CLICK \<in> events
                then (case onPressScrollable_up s st of
                        Inl e \<Rightarrow> Inl e | Inr st' \<Rightarrow> Inr (True, st'))
                else Inr (False, st)) = Inr (UP_CLICK \<in> events, st1)"
    and l1: "length (field_mem st1) = length (field_mem st)"
    and k1: "scrollableStack st1 = scrollableStack st"
      "scrollableStackPtr st1 = scrollableStackPtr st"
    and c1: "countEntries st1 s = Inr n"
    and w1: "uint (first (field_mem st1 ! s)) \<le> uint (selected (field_mem st1 ! s))"
      "uint (selected (field_mem st1 ! s)) \<le> n - 1"
    by blast
  have v1: "s < length (field_mem st1)" "scrollableStackPtr st1 \<noteq> 0"
    "scrollableStack st1 0 < length (field_mem st1)"
    using l1 k1 p assms(2,3) by simp_all
  have "\<exists>st2. (if DOWN_CLICK \<in> events
                then (case onPressScrollable_down s st1 of
                        Inl e \<Rightarrow> Inl e | Inr st' \<Rightarrow> Inr (True, st'))
                else Inr (UP_CLICK \<in> events, st1))
          = Inr (UP_CLICK \<in> events \<or> DOWN_CLICK \<in> events, st2)
     \<and> countEntries st2 s = Inr n
     \<and> uint (first (field_mem st2 ! s)) \<le> uint (selected (field_mem st2 ! s))
     \<and> uint (selected (field_mem st2 ! s)) \<le> n - 1"
  proof (cases "DOWN_CLICK \<in> events")
    case True
    with down_keeps_window [OF v1 c1 w1 assms(5)] show ?thesis by auto
  next
    case False
    with c1 w1 show ?thesis by simp
  qed
  then obtain st2 where
    d: "(if DOWN_CLICK \<in> events
                then (case onPressScrollable_down s st1 of
                        Inl e \<Rightarrow> Inl e | Inr st' \<Rightarrow> Inr (True, st'))
                else Inr (UP_CLICK \<in> events, st1))
          = Inr (UP_CLICK \<in> events \<or> DOWN_CLICK \<in> events, st2)"
    and r2: "countEntries st2 s = Inr n"
      "uint (first (field_mem st2 ! s)) \<le> uint (selected (field_mem st2 ! s))"
      "uint (selected (field_mem st2 ! s)) \<le> n - 1"
    by blast
  have "onPressScrollable events st = Inr (UP_CLICK \<in> events \<or> DOWN_CLICK \<in> events, st2)"
    using assms(1,8,9) u d by (simp add: onPressScrollable_def)
  with r2 show ?thesis by auto
qed

theorem navigation_keeps_window_witness:
  "getActiveScrollable (flat_menu 6 0 2) = Some 7
   \<and> 7 < length (field_mem (flat_menu 6 0 2))
   \<and> scrollableStack (flat_menu 6 0 2) 0 < length (field_mem (flat_menu 6 0 2))
   \<and> countEntries (flat_menu 6 0 2) 7 = Inr 6
   \<and> (6 :: int) \<le> 256
   \<and> uint (first (field_mem (flat_menu 6 0 2) ! 7)) \<le> uint (selected (field_mem (flat_menu 6 0 2) ! 7))
   \<and> uint (selected (field_mem (flat_menu 6 0 2) ! 7)) \<le> 6 - 1
   \<and> M_CLICK \<notin> {DOWN_CLICK} \<and> ONOFF_CLICK \<notin> {DOWN_CLICK}
   \<and> (\<exists>st'. onPressScrollable {DOWN_CLICK} (flat_menu 6 0 2) = Inr (True, st')
         \<and> uint (first (field_mem st' ! 7)) \<le> uint (selected (field_mem st' ! 7))
         \<and> uint (selected (field_mem st' ! 7)) \<le> 5)"
proof -
  have a: "getActiveScrollable (flat_menu 6 0 2) = Some 7" by code_simp
  have b: "7 < length (field_mem (flat_menu 6 0 2))" by code_simp
  have c: "scrollableStack (flat_menu 6 0 2) 0 < length (field_mem (flat_menu 6 0 2))"
    by code_simp
  have d: "countEntries (flat_menu 6 0 2) 7 = Inr 6" by code_simp
  have e: "(6 :: int) \<le> 256" by simp
  have f: "uint (first (field_mem (flat_menu 6 0 2) ! 7))
             \<le> uint (selected (field_mem (flat_menu 6 0 2) ! 7))" by code_simp
  have g: "uint (selected (field_mem (flat_menu 6 0 2) ! 7)) \<le> 6 - 1" by code_simp
  have h: "M_CLICK \<notin> {DOWN_CLICK}" "ONOFF_CLICK \<notin> {DOWN_CLICK}" by simp_all
  from navigation_keeps_window [OF a b c d e f g h]
  have "\<exists>st'. onPressScrollable {DOWN_CLICK} (flat_menu 6 0 2) = Inr (True, st')
         \<and> uint (first (field_mem st' ! 7)) \<le> uint (selected (field_mem st' ! 7))
         \<and> uint (selected (field_mem st' ! 7)) \<le> 5"
    by auto
  with a b c d e f g h show ?thesis by blast
qed

text \<open>
  Claim C4, as stated (a down press increments \<open>selected\<close>, clamped at
  \<open>entry_count - 1\<close>, and keeps it within the visible rows), fails for a menu of more
  than 256 entries: with 300 entries, \<open>first = 253\<close> and \<open>selected = 255\<close>, the press
  leaves \<open>selected = 0\<close> (the \<open>uint8_t\<close> wraps) and \<open>first = 253\<close>, so
  \<open>selected\<close> is neither incremented to 256 nor a visible row.
\<close>

theorem down_press_counterexample:
  "getActiveScrollable (flat_menu 300 253 255) = Some 301
   \<and> countEntries (flat_menu 300 253 255) 301 = Inr 300
   \<and> scroll_window (flat_menu 300 253 255) 301 = (253, 255)
   \<and> window_after [{DOWN_CLICK}] (flat_menu 300 253 255) 301 = Some (253, 0)"
  by code_simp

text \<open>
  Claim C4, amended. For an active scrollable of at most 256 entries (every entry index
  fits the 8-bit \<open>first\<close> and \<open>selected\<close>), a down press is handled and increments
  \<open>selected\<close> by one unless it has reached \<open>entry_count - 1\<close>, so that a valid
  \<open>selected\<close> becomes \<open>min (selected + 1) (entry_count - 1)\<close>; when \<open>selected\<close> is
  then past the last visible data row \<open>first + MAX_SCROLLABLE_ROWS - 2\<close>, \<open>first\<close> is
  set so that \<open>selected\<close> is the last visible data row, and otherwise \<open>first\<close> is
  kept. For a scrollable of 6 entries at \<open>first = 0\<close>, \<open>selected = 0\<close>, three down
  presses give \<open>selected = 3\<close> and \<open>first = 1\<close>.
\<close>

theorem down_press_scrolls:
  assumes "getActiveScrollable st = Some s" "s < length (field_mem st)"
    "scrollableStack st 0 < length (field_mem st)" "countEntries st s = Inr n" "n \<le> 256"
    "DOWN_CLICK \<in> events" "UP_CLICK \<notin> events" "M_CLICK \<notin> events" "ONOFF_CLICK \<notin> events"
  shows "(\<exists>st'. onPressScrollable events st = Inr (True, st')
      \<and> uint (selected (field_mem st' ! s)) =
          (if uint (selected (field_mem st ! s)) < n - 1
           then uint (selected (field_mem st ! s)) + 1
           else uint (selected (field_mem st ! s)))
      \<and> (uint (selected (field_mem st ! s)) \<le> n - 1
           \<longrightarrow> uint (selected (field_mem st' ! s))
                = min (uint (selected (field_mem st ! s)) + 1) (n - 1))
      \<and> (if uint (selected (field_mem st' ! s))
              > uint (first (field_mem st ! s)) + int MAX_SCROLLABLE_ROWS - 2
          then uint (first (field_mem st' ! s)) + int MAX_SCROLLABLE_ROWS - 2
                 = uint (selected (field_mem st' ! s))
          else first (field_mem st' ! s) = first (field_mem st ! s)))
    \<and> window_after [{DOWN_CLICK}, {DOWN_CLICK}, {DOWN_CLICK}] (flat_menu 6 0 0) 7 = Some (1, 3)"
proof
  from assms(1) have p: "scrollableStackPtr st \<noteq> 0"
    by (auto simp: getActiveScrollable_def split: if_splits)
  from onPressScrollable_down_result [OF assms(2) p assms(3,4)] obtain st' where
    r: "onPressScrollable_down s st = Inr st'"
    and sel: "selected (field_mem st' ! s) =
         (if uint (selected (field_mem st ! s)) < n - 1 then selected (field_mem st ! s) + 1
          else selected (field_mem st ! s))"
    and fst: "first (field_mem st' ! s) =
         (if uint (selected (field_mem st' ! s)) > uint (first (field_mem st ! s)) + 2
          then selected (field_mem st' ! s) - 2 else first (field_mem st ! s))"
    by blast
  have 1: "onPressScrollable events st = Inr (True, st')"
    using assms(1,6-9) r by (simp add: onPressScrollable_def)
  have 2: "uint (selected (field_mem st' ! s)) =
          (if uint (selected (field_mem st ! s)) < n - 1
           then uint (selected (field_mem st ! s)) + 1
           else uint (selected (field_mem st ! s)))"
  proof (cases "uint (selected (field_mem st ! s)) < n - 1")
    case True
    with assms(5) have "uint (selected (field_mem st ! s)) < 255" by simp
    with True sel show ?thesis by (simp add: w8_inc)
  next
    case False
    with sel show ?thesis by simp
  qed
  have 3: "uint (selected (field_mem st ! s)) \<le> n - 1
           \<longrightarrow> uint (selected (field_mem st' ! s))
                = min (uint (selected (field_mem st ! s)) + 1) (n - 1)"
    using 2 by (simp add: min_def)
  have 4: "if uint (selected (field_mem st' ! s))
              > uint (first (field_mem st ! s)) + int MAX_SCROLLABLE_ROWS - 2
          then uint (first (field_mem st' ! s)) + int MAX_SCROLLABLE_ROWS - 2
                 = uint (selected (field_mem st' ! s))
          else first (field_mem st' ! s) = first (field_mem st ! s)"
  proof (cases "uint (selected (field_mem st' ! s)) > uint (first (field_mem st ! s)) + 2")
    case True
    have "0 \<le> uint (first (field_mem st ! s))" by simp
    with True have "2 \<le> uint (selected (field_mem st' ! s))" by linarith
    with True fst show ?thesis by (simp add: w8_sub2 MAX_SCROLLABLE_ROWS_def)
  next
    case False
    with fst show ?thesis by (simp add: MAX_SCROLLABLE_ROWS_def)
  qed
  from 1 2 3 4
  show "\<exists>st'. onPressScrollable events st = Inr (True, st')
      \<and> uint (selected (field_mem st' ! s)) =
          (if uint (selected (field_mem st ! s)) < n - 1
           then uint (selected (field_mem st ! s)) + 1
           else uint (selected (field_mem st ! s)))
      \<and> (uint (selected (field_mem st ! s)) \<le> n - 1
           \<longrightarrow> uint (selected (field_mem st' ! s))
                = min (uint (selected (field_mem st ! s)) + 1) (n - 1))
      \<and> (if uint (selected (field_mem st' ! s))
              > uint (first (field_mem st ! s)) + int MAX_SCROLLABLE_ROWS - 2
          then uint (first (field_mem st' ! s)) + int MAX_SCROLLABLE_ROWS - 2
                 = uint (selected (field_mem st' ! s))
          else first (field_mem st' ! s) = first (field_mem st ! s))"
    by blast
next
  show "window_after [{DOWN_CLICK}, {DOWN_CLICK}, {DOWN_CLICK}] (flat_menu 6 0 0) 7 = Some (1, 3)"
    by code_simp
qed

theorem down_press_scrolls_witness:
  "getActiveScrollable (flat_menu 6 0 2) = Some 7
   \<and> 7 < length (field_mem (flat_menu 6 0 2))
   \<and> scrollableStack (flat_menu 6 0 2) 0 < length (field_mem (flat_menu 6 0 2))
   \<and> countEntries (flat_menu 6 0 2) 7 = Inr 6
   \<and> (6 :: int) \<le> 256
   \<and> DOWN_CLICK \<in> {DOWN_CLICK} \<and> UP_CLICK \<notin> {DOWN_CLICK}
   \<and> M_CLICK \<notin> {DOWN_CLICK} \<and> ONOFF_CLICK \<notin> {DOWN_CLICK}
   \<and> uint (selected (field_mem (flat_menu 6 0 2) ! 7)) \<le> 6 - 1
   \<and> (\<exists>st'. onPressScrollable {DOWN_CLICK} (flat_menu 6 0 2) = Inr (True, st')
         \<and> uint (selected (field_mem st' ! 7)) = 3 \<and> uint (first (field_mem st' ! 7)) = 1)"
proof -
  have a: "getActiveScrollable (flat_menu 6 0 2) = Some 7" by code_simp
  have b: "7 < length (field_mem (flat_menu 6 0 2))" by code_simp
  have c: "scrollableStack (flat_menu 6 0 2) 0 < length (field_mem (flat_menu 6 0 2))"
    by code_simp
  have d: "countEntries (flat_menu 6 0 2) 7 = Inr 6" by code_simp
  have e: "(6 :: int) \<le> 256" by simp
  have h: "DOWN_CLICK \<in> {DOWN_CLICK}" "UP_CLICK \<notin> {DOWN_CLICK}" "M_CLICK \<notin> {DOWN_CLICK}"
    "ONOFF_CLICK \<notin> {DOWN_CLICK}" by simp_all
  have v: "uint (selected (field_mem (flat_menu 6 0 2) ! 7)) = 2"
    "uint (first (field_mem (flat_menu 6 0 2) ! 7)) = 0" by code_simp+
  from down_press_scrolls [OF a b c d e h]
  obtain st' where s: "onPressScrollable {DOWN_CLICK} (flat_menu 6 0 2) = Inr (True, st')"
    "uint (selected (field_mem st' ! 7)) = 3"
    "(if uint (selected (field_mem st' ! 7))
              > uint (first (field_mem (flat_menu 6 0 2) ! 7)) + int MAX_SCROLLABLE_ROWS - 2
          then uint (first (field_mem st' ! 7)) + int MAX_SCROLLABLE_ROWS - 2
                 = uint (selected (field_mem st' ! 7))
          else first (field_mem st' ! 7) = first (field_mem (flat_menu 6 0 2) ! 7))"
    by (auto simp: v)
  from s(2,3) have "uint (first (field_mem st' ! 7)) = 1"
    by (simp add: v MAX_SCROLLABLE_ROWS_def)
  with s a b c d e h v show ?thesis by auto
qed

section \<open>Claims about changeEditable\<close>

lemma sint32_nonneg_unat: "0 \<le> sint (w :: 32 word) \<Longrightarrow> int (unat w) = sint w"
proof -
  assume a: "0 \<le> sint w"
  have "uint w < 4294967296" using uint_lt2p [of w] by simp
  with a show ?thesis by (simp add: sint32 split: if_splits)
qed

lemma sint32_add1: "sint (w :: 32 word) < 2147483647 \<Longrightarrow> sint (w + 1) = sint w + 1"
proof -
  assume a: "sint w < 2147483647"
  have "- (2 ^ 31) \<le> sint w" using sint_ge [of w] by simp
  with a have "signed_take_bit 31 (sint w + 1) = sint w + 1"
    by (simp add: signed_take_bit_int_eq_self)
  then show ?thesis by (simp add: sint_word_ariths)
qed

lemma sint32_sub1: "- 2147483648 < sint (w :: 32 word) \<Longrightarrow> sint (w - 1) = sint w - 1"
proof -
  assume a: "- 2147483648 < sint w"
  have "sint w < 2 ^ 31" using sint_lt [of w] by simp
  with a have "signed_take_bit 31 (sint w - 1) = sint w - 1"
    by (simp add: signed_take_bit_int_eq_self)
  then show ?thesis by (simp add: sint_word_ariths)
qed

lemma sint32_of_nat: "n < 2147483648 \<Longrightarrow> sint (word_of_nat n :: 32 word) = int n"
  by (simp add: signed_of_nat signed_take_bit_int_eq_self)

lemma getEditableNumber_index:
  assumes "p < length (field_mem st)"
    and "size_e (field_mem st ! p) = 1 \<and> n \<le> 256
       \<or> size_e (field_mem st ! p) = 2 \<and> n \<le> 32768
       \<or> size_e (field_mem st ! p) = 4 \<and> n < 2147483648"
    and "stored_value st p < n"
  shows "\<exists>v. getEditableNumber st p = Inr v \<and> sint v = int (stored_value st p)"
  using assms getEditableNumber_1 [OF assms(1)] getEditableNumber_2 [OF assms(1)]
    getEditableNumber_4 [OF assms(1)]
  by auto

lemma setEditableNumber_index:
  assumes "p < length (field_mem st)"
    and "size_e (field_mem st ! p) = 1 \<and> n \<le> 256
       \<or> size_e (field_mem st ! p) = 2 \<and> n \<le> 32768
       \<or> size_e (field_mem st ! p) = 4 \<and> n < 2147483648"
    and "unat w < n"
  shows "\<exists>st'. setEditableNumber st p w = Inr st' \<and> stored_value st' p = unat w"
  using assms setEditableNumber_1 [OF assms(1), of w] setEditableNumber_2 [OF assms(1), of w]
    setEditableNumber_4 [OF assms(1), of w]
  by auto

text \<open>
  Claim C8, as stated (for every active enum editable with \<open>n\<close> options a decrement from
  the stored index 0 stores \<open>n - 1\<close>), fails when the cell is too narrow for the option
  count: with 257 options over a one-byte cell the decrement computes 256 and
  \<open>setEditableNumber\<close> stores its truncation to 8 bits, 0.
\<close>

theorem changeEditable_enum_counterexample:
  "countEnumOptions (field_mem (enum_editable 257 1 0) ! 0) = Inr 257
   \<and> stored_value (enum_editable 257 1 0) 0 = 0
   \<and> stored_after False (enum_editable 257 1 0) 0 = Some 0"
  by code_simp


text \<open>
  Claim C8, amended. For an active enum editable with \<open>n\<close> options (the option array
  ends with a null entry) whose indices all fit the cell as \<open>getEditableNumber\<close> reads it
  (\<open>n \<le> 256\<close> for one byte, \<open>n \<le> 32768\<close> for two bytes, \<open>n < 2^31\<close> for four) and
  a stored index below \<open>n\<close>: an increment from index \<open>n - 1\<close> stores 0 and from any
  other index stores the next one; a decrement from index 0 stores \<open>n - 1\<close> and from any
  other index stores the one before.
\<close>

theorem changeEditable_enum_wraps:
  assumes "curActiveEditable st = Some p" "p < length (field_mem st)"
    "etyp (field_mem st ! p) = EditEnum"
    "countEnumOptions (field_mem st ! p) = Inr n"
    "size_e (field_mem st ! p) = 1 \<and> n \<le> 256
       \<or> size_e (field_mem st ! p) = 2 \<and> n \<le> 32768
       \<or> size_e (field_mem st ! p) = 4 \<and> n < 2147483648"
    "stored_value st p < n"
  shows "\<exists>st'. changeEditable increment st = Inr st'
     \<and> stored_value st' p =
         (if increment
          then (if stored_value st p = n - 1 then 0 else stored_value st p + 1)
          else (if stored_value st p = 0 then n - 1 else stored_value st p - 1))"
proof -
  let ?i = "stored_value st p"
  from assms(5) have n: "n < 2147483648" by auto
  from getEditableNumber_index [OF assms(2,5,6)] obtain v where
    g: "getEditableNumber st p = Inr v" and v: "sint v = int ?i" by blast
  have N: "sint (word_of_nat n :: 32 word) = int n" using n by (rule sint32_of_nat)
  have N1: "sint (word_of_nat n - 1 :: 32 word) = int n - 1"
    using N n by (simp add: sint32_sub1)
  show ?thesis
  proof (cases increment)
    case True
    have v1: "sint (v + 1) = int ?i + 1" using v assms(6) n by (simp add: sint32_add1)
    show ?thesis
    proof (cases "?i = n - 1")
      case i: True
      have "unat (0 :: 32 word) < n" using assms(6) by simp
      from setEditableNumber_index [OF assms(2,5) this] i assms(1,3,4,6) g v1 N True
      show ?thesis
        by (simp add: changeEditable_def word_sless_alt word_sle_eq)
    next
      case i: False
      with assms(6) have lt: "?i + 1 < n" by simp
      have "0 \<le> sint (v + 1)" using v1 by simp
      from sint32_nonneg_unat [OF this] v1 have u: "unat (v + 1) = ?i + 1" by linarith
      with lt have "unat (v + 1) < n" by simp
      from setEditableNumber_index [OF assms(2,5) this] i assms(1,3,4) g v1 N True lt u
      show ?thesis
        by (simp add: changeEditable_def word_sless_alt word_sle_eq)
    qed
  next
    case False
    have v1: "sint (v - 1) = int ?i - 1" using v by (simp add: sint32_sub1)
    show ?thesis
    proof (cases "?i = 0")
      case i: True
      have "0 \<le> sint (word_of_nat n - 1 :: 32 word)" using N1 assms(6) by simp
      from sint32_nonneg_unat [OF this] N1 have u: "unat (word_of_nat n - 1 :: 32 word) = n - 1"
        by linarith
      with assms(6) have "unat (word_of_nat n - 1 :: 32 word) < n" by simp
      from setEditableNumber_index [OF assms(2,5) this] i assms(1,3,4) g v1 False u
      show ?thesis
        by (simp add: changeEditable_def word_sless_alt word_sle_eq)
    next
      case i: False
      have "0 \<le> sint (v - 1)" using v1 i by simp
      from sint32_nonneg_unat [OF this] v1 have u: "unat (v - 1) = ?i - 1" by linarith
      with assms(6) i have "unat (v - 1) < n" by simp
      from setEditableNumber_index [OF assms(2,5) this] i assms(1,3,4,6) g v1 N False u
      show ?thesis
        by (simp add: changeEditable_def word_sless_alt word_sle_eq)
    qed
  qed
qed


theorem changeEditable_enum_wraps_witness:
  "curActiveEditable (enum_editable 3 1 2) = Some 0
   \<and> 0 < length (field_mem (enum_editable 3 1 2))
   \<and> etyp (field_mem (enum_editable 3 1 2) ! 0) = EditEnum
   \<and> countEnumOptions (field_mem (enum_editable 3 1 2) ! 0) = Inr 3
   \<and> size_e (field_mem (enum_editable 3 1 2) ! 0) = 1 \<and> (3 :: nat) \<le> 256
   \<and> stored_value (enum_editable 3 1 2) 0 = 2
   \<and> (\<exists>st'. changeEditable True (enum_editable 3 1 2) = Inr st' \<and> stored_value st' 0 = 0)
   \<and> (\<exists>st'. changeEditable False (enum_editable 3 1 2) = Inr st' \<and> stored_value st' 0 = 1)"
proof -
  have a: "curActiveEditable (enum_editable 3 1 2) = Some 0" by code_simp
  have b: "0 < length (field_mem (enum_editable 3 1 2))" by code_simp
  have c: "etyp (field_mem (enum_editable 3 1 2) ! 0) = EditEnum" by code_simp
  have d: "countEnumOptions (field_mem (enum_editable 3 1 2) ! 0) = Inr 3" by code_simp
  have e: "size_e (field_mem (enum_editable 3 1 2) ! 0) = 1" by code_simp
  have f: "stored_value (enum_editable 3 1 2) 0 = 2" by code_simp
  have g: "size_e (field_mem (enum_editable 3 1 2) ! 0) = 1 \<and> (3 :: nat) \<le> 256
       \<or> size_e (field_mem (enum_editable 3 1 2) ! 0) = 2 \<and> (3 :: nat) \<le> 32768
       \<or> size_e (field_mem (enum_editable 3 1 2) ! 0) = 4 \<and> (3 :: nat) < 2147483648"
    using e by simp
  have h: "stored_value (enum_editable 3 1 2) 0 < 3" using f by simp
  from changeEditable_enum_wraps [OF a b c d g h, of True]
  have 1: "\<exists>st'. changeEditable True (enum_editable 3 1 2) = Inr st' \<and> stored_value st' 0 = 0"
    by (simp add: f)
  from changeEditable_enum_wraps [OF a b c d g h, of False]
  have 2: "\<exists>st'. changeEditable False (enum_editable 3 1 2) = Inr st' \<and> stored_value st' 0 = 1"
    by (simp add: f)
  from a b c d e f 1 2 show ?thesis by simp
qed

text \<open>
  Claim C2 (an increment at \<open>max_value\<close> stores \<open>min_value\<close>, a decrement at
  \<open>min_value\<close> stores \<open>max_value\<close>, the step is 1 when \<open>inc_step\<close> is 0), evaluated
  on a one-byte editable with \<open>min_value = 0\<close>, \<open>max_value = 9\<close>. A decrement at the
  stored value 0 leaves 0 in the cell, not 9: \<open>v\<close> becomes \<open>-1\<close>, the comparisons with
  the \<open>uint32_t\<close> bounds are unsigned, so \<open>v < min_value\<close> is false and
  \<open>v > max_value\<close> is true. The increment at 9 stores 0, a decrement at the minimum of a
  range starting at 3 stores the maximum, and an \<open>inc_step\<close> of 0 steps by 1.
\<close>

theorem changeEditable_uint_decrement_at_min:
  "min_value (field_mem (uint_editable_at 1 0 9 1 0) ! 0) = 0
   \<and> max_value (field_mem (uint_editable_at 1 0 9 1 0) ! 0) = 9
   \<and> stored_value (uint_editable_at 1 0 9 1 0) 0 = 0
   \<and> stored_after False (uint_editable_at 1 0 9 1 0) 0 = Some 0
   \<and> stored_after True (uint_editable_at 1 0 9 1 9) 0 = Some 0
   \<and> stored_after False (uint_editable_at 1 3 9 1 3) 0 = Some 9
   \<and> stored_after True (uint_editable_at 1 0 9 0 4) 0 = Some 5"
  by code_simp


section \<open>Claim about renderLayouts\<close>

text \<open>
  Claim C1 (after \<open>renderLayouts\<close> returns, every Field referenced by a layout of the
  sequence it was given has its dirty flag cleared), evaluated on the rows of an open menu
  whose first entry is a sub-menu. The sequence passed is the static \<open>rows\<close>: the
  heading (Field 6), the sub-menu (1), the editable (2), a blank row (11). Drawing the
  collapsed sub-menu calls \<open>renderActiveScrollable\<close> again, which overwrites \<open>rows[0]\<close>
  and ends the array at \<open>rows[1]\<close>; the second pass then clears the label only, and the
  call returns with the Fields 6, 1, 2 and 11 still dirty. The same Fields are dirty after
  the pass over the whole screen.
\<close>

theorem renderLayouts_leaves_rows_dirty:
  "menu_rows = Some [Some 6, Some 1, Some 2, Some 11, None]
   \<and> menu_rows_rendered = Some (True, [1, 2, 3, 6, 11])
   \<and> menu_screen_rendered = Some (True, [1, 2, 3, 6, 11])"
  by code_simp

end
